theory Spec2Isabelle
  imports Main "HOL-Library.Word"
begin

section \<open>Strings of the JavaScript runtime\<close>

text \<open>
  A JavaScript string is a sequence of UTF-16 code units. Literals of the source are
  written with \<open>str\<close>, which maps each character of an Isabelle string to its code unit.
\<close>

type_synonym cu = "16 word"
type_synonym jstring = "cu list"
type_synonym bytes = "8 word list"

definition str :: "string \<Rightarrow> jstring" where
  "str cs = map of_char cs"

text \<open>
  The code units matched by \<open>\s\<close> in a pattern and removed by \<open>String.prototype.trim\<close>:
  the WhiteSpace and LineTerminator productions of ECMAScript (tab, LF, VT, FF, CR,
  space, NBSP, the Unicode space separators, LS, PS and the byte order mark).
\<close>

definition isWhiteSpace :: "cu \<Rightarrow> bool" where
  "isWhiteSpace c \<longleftrightarrow>
     c \<in> {0x09, 0x0A, 0x0B, 0x0C, 0x0D, 0x20, 0xA0, 0x1680, 0x2028, 0x2029, 0x202F,
          0x205F, 0x3000, 0xFEFF}
     \<or> (0x2000 \<le> c \<and> c \<le> 0x200A)"

definition trim :: "jstring \<Rightarrow> jstring" where
  "trim s = rev (dropWhile isWhiteSpace (rev (dropWhile isWhiteSpace s)))"

text \<open>
  Canonicalize of a pattern with the \<open>i\<close> flag and without the \<open>u\<close> flag: a code unit is
  mapped to its upper case, except that a code unit from 128 on is never mapped below
  128. Every literal of the two patterns of the source is ASCII, and on ASCII this is
  the map below; a code unit from 128 on keeps a canonical form from 128 on, so it
  equals no canonical form of a pattern character, as here.
\<close>

definition canonicalize :: "cu \<Rightarrow> cu" where
  "canonicalize c = (if 0x61 \<le> c \<and> c \<le> 0x7A then c - 0x20 else c)"

text \<open>Decimal digits of a number, as template literals print \<open>Date.now()\<close>.\<close>

fun decimal :: "nat \<Rightarrow> jstring" where
  "decimal n = (if n < 10 then [0x30 + of_nat n] else decimal (n div 10) @ [0x30 + of_nat (n mod 10)])"

declare decimal.simps [simp del]

section \<open>Regular expressions: the fragment the source uses\<close>

text \<open>
  The patterns of the source are built from literal characters, the classes \<open>\s\<close> and
  \<open>[\s\S]\<close>, greedy and lazy stars, one capture group, a positive lookahead with an
  alternative, and the end anchor \<open>$\<close> (no \<open>m\<close> flag: the end of the input).
\<close>

datatype cls = WhiteSpaceClass | AnyClass

fun in_cls :: "cls \<Rightarrow> cu \<Rightarrow> bool" where
  "in_cls WhiteSpaceClass c = isWhiteSpace c"
| "in_cls AnyClass c = True"

datatype regex =
    Chr cu
  | Cls cls
  | Eps
  | Cat regex regex
  | Alt regex regex
  | Star bool regex
  | Group regex
  | Lookahead regex
  | EndOfInput

text \<open>
  A matcher state is the input still to be read and the text of capture group 1.
  \<open>ms r st\<close> lists the states in which a match of \<open>r\<close> from \<open>st\<close> can end, in the order
  in which the backtracking matcher of ECMAScript tries them: the first alternative
  before the second, a greedy star one more iteration before stopping, a lazy star
  stopping before one more iteration. An iteration of a star that reads nothing is
  rejected. A lookahead keeps the first way its body matches and reads nothing.
\<close>

type_synonym mstate = "jstring \<times> jstring option"

fun ms :: "regex \<Rightarrow> mstate \<Rightarrow> mstate list" where
  "ms (Chr p) (s, c) =
     (case s of [] \<Rightarrow> []
      | x # xs \<Rightarrow> if canonicalize x = canonicalize p then [(xs, c)] else [])"
| "ms (Cls k) (s, c) =
     (case s of [] \<Rightarrow> [] | x # xs \<Rightarrow> if in_cls k x then [(xs, c)] else [])"
| "ms Eps st = [st]"
| "ms (Cat a b) st = concat (map (ms b) (ms a st))"
| "ms (Alt a b) st = ms a st @ ms b st"
| "ms (Star greedy r) st =
     (let more = concat (map (\<lambda>st'. if length (fst st') < length (fst st)
                                       then ms (Star greedy r) st' else []) (ms r st))
      in if greedy then more @ [st] else st # more)"
| "ms (Group r) (s, c) =
     map (\<lambda>(s', c'). (s', Some (take (length s - length s') s))) (ms r (s, c))"
| "ms (Lookahead r) (s, c) = (case ms r (s, c) of [] \<Rightarrow> [] | (s', c') # _ \<Rightarrow> [(s, c')])"
| "ms EndOfInput (s, c) = (if s = [] then [(s, c)] else [])"

declare ms.simps(6) [simp del]

text \<open>
  \<open>String.prototype.match\<close> with a pattern without the \<open>g\<close> flag: the match at the
  leftmost start index that has one, or null (\<open>None\<close>). Of the match array the model
  keeps element 1, the capture group, which is undefined (\<open>None\<close>) when the group took
  no part in the match.
\<close>

fun string_match :: "regex \<Rightarrow> jstring \<Rightarrow> jstring option option" where
  "string_match r [] = (case ms r ([], None) of [] \<Rightarrow> None | (_, c) # _ \<Rightarrow> Some c)"
| "string_match r (x # xs) =
     (case ms r (x # xs, None) of [] \<Rightarrow> string_match r xs | (_, c) # _ \<Rightarrow> Some c)"

fun lit :: "jstring \<Rightarrow> regex" where
  "lit [] = Eps"
| "lit (p # ps) = Cat (Chr p) (lit ps)"

text \<open>\<^verbatim>\<open>/Feedback:\s*([\s\S]*?)(?=\nCorrected:|$)/i\<close>\<close>

definition feedback_re :: regex where
  "feedback_re =
     Cat (lit (str ''Feedback:''))
       (Cat (Star True (Cls WhiteSpaceClass))
         (Cat (Group (Star False (Cls AnyClass)))
           (Lookahead (Alt (lit (str ''\<newline>Corrected:'')) EndOfInput))))"

text \<open>\<^verbatim>\<open>/Corrected:\s*([\s\S]*?)$/i\<close>\<close>

definition corrected_re :: regex where
  "corrected_re =
     Cat (lit (str ''Corrected:''))
       (Cat (Star True (Cls WhiteSpaceClass))
         (Cat (Group (Star False (Cls AnyClass))) EndOfInput))"

section \<open>The two captures, written out\<close>

text \<open>
  What the two patterns compute, as plain list functions; the section on the patterns
  below proves that \<open>string_match\<close> on each pattern is the corresponding function.
  \<open>strip_ci p s\<close> removes \<open>p\<close> from the front of \<open>s\<close>, comparing canonical forms;
  \<open>find_ci p s\<close> is the text after the leftmost occurrence of \<open>p\<close>;
  \<open>until_marker p s\<close> is the text of \<open>s\<close> before the first position at which \<open>p\<close>
  begins (the whole of \<open>s\<close> when there is none).
\<close>

fun strip_ci :: "jstring \<Rightarrow> jstring \<Rightarrow> jstring option" where
  "strip_ci [] s = Some s"
| "strip_ci (p # ps) [] = None"
| "strip_ci (p # ps) (x # xs) =
     (if canonicalize x = canonicalize p then strip_ci ps xs else None)"

fun find_ci :: "jstring \<Rightarrow> jstring \<Rightarrow> jstring option" where
  "find_ci p [] = strip_ci p []"
| "find_ci p (x # xs) =
     (case strip_ci p (x # xs) of Some r \<Rightarrow> Some r | None \<Rightarrow> find_ci p xs)"

definition contains_ci :: "jstring \<Rightarrow> jstring \<Rightarrow> bool" where
  "contains_ci p s \<longleftrightarrow> find_ci p s \<noteq> None"

definition at_marker :: "jstring \<Rightarrow> jstring \<Rightarrow> bool" where
  "at_marker p s \<longleftrightarrow> strip_ci p s \<noteq> None"

fun until_marker :: "jstring \<Rightarrow> jstring \<Rightarrow> jstring" where
  "until_marker p [] = []"
| "until_marker p (x # xs) = (if at_marker p (x # xs) then [] else x # until_marker p xs)"

definition feedback_capture :: "jstring \<Rightarrow> jstring option" where
  "feedback_capture s =
     map_option (\<lambda>r. until_marker (str ''\<newline>Corrected:'') (dropWhile isWhiteSpace r))
       (find_ci (str ''Feedback:'') s)"

definition corrected_capture :: "jstring \<Rightarrow> jstring option" where
  "corrected_capture s = map_option (dropWhile isWhiteSpace) (find_ci (str ''Corrected:'') s)"

text \<open>Helpers of the proofs about \<open>ms\<close>: the capture of the first state of a list, and
  the first success over a list of candidates.\<close>

fun lazy_capture :: "(jstring \<Rightarrow> bool) \<Rightarrow> jstring \<Rightarrow> jstring option" where
  "lazy_capture P [] = (if P [] then Some [] else None)"
| "lazy_capture P (x # xs) =
     (if P (x # xs) then Some [] else map_option ((#) x) (lazy_capture P xs))"

fun first_cap :: "mstate list \<Rightarrow> jstring option option" where
  "first_cap [] = None"
| "first_cap ((s, c) # _) = Some c"

fun first_of :: "('a \<Rightarrow> 'b option) \<Rightarrow> 'a list \<Rightarrow> 'b option" where
  "first_of f [] = None"
| "first_of f (x # xs) = (case f x of None \<Rightarrow> first_of f xs | Some c \<Rightarrow> Some c)"

text \<open>
  The parsing policy in the words of the specification, for comparison with the code:
  the feedback is the text from the \<open>Feedback:\<close> marker up to the next \<open>Corrected:\<close>
  marker or the end of the text, the corrected text is the text from the \<open>Corrected:\<close>
  marker to the end of the text, each trimmed.
\<close>

definition spec_feedback :: "jstring \<Rightarrow> jstring option" where
  "spec_feedback s =
     map_option (\<lambda>r. trim (until_marker (str ''Corrected:'') r)) (find_ci (str ''Feedback:'') s)"

definition spec_corrected :: "jstring \<Rightarrow> jstring option" where
  "spec_corrected s = map_option trim (find_ci (str ''Corrected:'') s)"

section \<open>The server: state, requests, environment\<close>

text \<open>An error object: its \<open>code\<close>, its \<open>message\<close> and, for an HTTP error of axios,
  \<open>response.status\<close>.\<close>

record js_error =
  err_code :: "jstring option"
  err_message :: jstring
  err_response_status :: "nat option"

text \<open>\<open>req.file\<close> as multer fills it in.\<close>

record upload =
  originalname :: jstring
  filesize :: nat
  filepath :: jstring
  mimetype :: "jstring option"

record request =
  req_file :: "upload option"

text \<open>
  The record kept in \<open>analysisResults\<close>. The source keeps the audio as the base64 text
  of the bytes read back from the temp file; the model keeps the bytes, and base64 text
  is empty exactly when there are no bytes.
\<close>

record result =
  result_id :: jstring
  transcript :: jstring
  feedback :: jstring
  correctedText :: jstring
  audio :: bytes
  timestamp :: jstring

text \<open>
  The state the handlers act on: the files on disk (by path), the map
  \<open>analysisResults\<close>, the pending \<open>setTimeout\<close> timers (due time in milliseconds and
  the id each one deletes) and the clock in milliseconds.
\<close>

record state =
  files :: "jstring \<rightharpoonup> bytes"
  analysisResults :: "jstring \<rightharpoonup> result"
  timers :: "(nat \<times> jstring) list"
  clock :: nat

text \<open>The body of a Deepgram response, as far as the handler reads it:
  \<open>data?.results?.channels[0]?.alternatives[0]?.transcript\<close>.\<close>

datatype alternative = Alternative "jstring option"
datatype channel = Channel "alternative list option"
datatype dg_results = Results "channel list option"
datatype dg_data = Data "dg_results option"

text \<open>What \<open>new gTTS(text, 'en')\<close> and \<open>tts.save(path, callback)\<close> can do: the
  constructor throws; the file is written and the callback gets no error; or the
  callback gets an error, with the file left behind (with some bytes) or not created.\<close>

datatype tts_outcome = TtsThrows js_error | TtsSaved bytes | TtsFailed "bytes option"

text \<open>
  Everything a request takes from outside the handler: the runtime's
  \<open>String.prototype.toLowerCase\<close> (the Unicode case tables are not part of the
  repository), \<open>process.env.NODE_ENV\<close>, \<open>__dirname\<close>, the two providers called through
  axios (an error is what axios rejects with; for Gemini the value is that of
  \<open>data?.candidates?.[0]?.content?.parts?.[0]?.text\<close>), the gtts library,
  \<open>Date.now()\<close>, \<open>Math.random().toString(36)\<close> and \<open>new Date().toISOString()\<close>.
\<close>

record env =
  toLowerCase :: "jstring \<Rightarrow> jstring"
  node_env :: "jstring option"
  dirname :: jstring
  deepgram :: "jstring \<Rightarrow> bytes \<Rightarrow> js_error + dg_data option"
  gemini :: "jstring \<Rightarrow> js_error + jstring option"
  gtts :: "jstring \<Rightarrow> tts_outcome"
  date_now :: nat
  math_random36 :: jstring
  iso_timestamp :: jstring

datatype body =
    ErrorBody jstring "jstring option" "jstring option"
  | AnalyzeBody jstring jstring jstring bool
  | ResultBody result
  | AudioBody jstring bytes

datatype response = Response nat body

datatype 'a outcome = Continue 'a | Return response | Throw js_error

section \<open>File system, error objects and responses\<close>

text \<open>
  \<open>fs.readFile\<close> and \<open>fs.unlink\<close> of \<open>fs.promises\<close>: both reject with ENOENT on a path
  that has no file. Paths are compared as the process resolves them, so
  \<open>path.resolve(req.file.path)\<close> and \<open>req.file.path\<close> are the same key.
\<close>

definition enoent :: "jstring \<Rightarrow> jstring \<Rightarrow> js_error" where
  "enoent syscall p =
     \<lparr>err_code = Some (str ''ENOENT''),
      err_message = str ''ENOENT: no such file or directory, '' @ syscall @ [0x20, 0x27] @ p @ [0x27],
      err_response_status = None\<rparr>"

definition fs_readFile :: "jstring \<Rightarrow> state \<Rightarrow> js_error + bytes" where
  "fs_readFile p s = (case files s p of None \<Rightarrow> Inl (enoent (str ''open'') p) | Some b \<Rightarrow> Inr b)"

definition fs_unlink :: "jstring \<Rightarrow> state \<Rightarrow> js_error + state" where
  "fs_unlink p s =
     (case files s p of None \<Rightarrow> Inl (enoent (str ''unlink'') p)
      | Some b \<Rightarrow> Inr (s\<lparr>files := (files s)(p := None)\<rparr>))"

definition type_error :: "jstring \<Rightarrow> js_error" where
  "type_error m = \<lparr>err_code = None, err_message = m, err_response_status = None\<rparr>"

text \<open>\<open>new Error('Failed to generate corrected audio')\<close>\<close>

definition tts_error :: js_error where
  "tts_error =
     \<lparr>err_code = None, err_message = str ''Failed to generate corrected audio'',
      err_response_status = None\<rparr>"

text \<open>\<open>String.prototype.includes\<close>: \<open>p\<close> occurs in \<open>s\<close>, code unit by code unit.\<close>

fun string_includes :: "jstring \<Rightarrow> jstring \<Rightarrow> bool" where
  "string_includes p [] = (p = [])"
| "string_includes p (x # xs) = (take (length p) (x # xs) = p \<or> string_includes p xs)"

definition no_file_response :: response where
  "no_file_response =
     Response 400 (ErrorBody (str ''No audio file uploaded'')
       (Some (str ''Please select an audio file to analyze'')) None)"

definition no_speech_response :: response where
  "no_speech_response =
     Response 400 (ErrorBody (str ''No speech detected'')
       (Some (str ''Could not detect any speech in the audio file. Please try again with a clearer recording.''))
       None)"

text \<open>The classification at the end of the catch block.\<close>

definition error_response :: "env \<Rightarrow> js_error \<Rightarrow> response" where
  "error_response env e =
     (if err_code e = Some (str ''ECONNABORTED'') \<or> string_includes (str ''timeout'') (err_message e)
      then Response 408 (ErrorBody (str ''Request timeout'')
             (Some (str ''The analysis took too long. Please try with a shorter audio file.'')) None)
      else if err_response_status e = Some 401
      then Response 500 (ErrorBody (str ''API authentication failed'')
             (Some (str ''There was an issue with the speech analysis service. Please try again later.''))
             None)
      else Response 500 (ErrorBody (str ''Analysis failed'')
             (Some (str ''Failed to analyze speech. Please ensure you uploaded a valid audio file and try again.''))
             (if node_env env = Some (str ''development'') then Some (err_message e) else None)))"

section \<open>POST /analyze-speech\<close>

subsection \<open>Step 1: speech to text\<close>

text \<open>
  \<open>deepgramResponse.data?.results?.channels[0]?.alternatives[0]?.transcript\<close>: an
  optional link that is missing makes the whole chain undefined; \<open>channels[0]\<close> and
  \<open>alternatives[0]\<close> are plain index reads, which throw a TypeError on a missing array
  and give undefined on an empty one.
\<close>

definition index_error :: js_error where
  "index_error =
     type_error (str ''Cannot read properties of undefined (reading '' @ [0x27, 0x30, 0x27, 0x29])"

fun extract_transcript :: "dg_data option \<Rightarrow> js_error + jstring option" where
  "extract_transcript None = Inr None"
| "extract_transcript (Some (Data None)) = Inr None"
| "extract_transcript (Some (Data (Some (Results None)))) = Inl index_error"
| "extract_transcript (Some (Data (Some (Results (Some []))))) = Inr None"
| "extract_transcript (Some (Data (Some (Results (Some (Channel None # _)))))) = Inl index_error"
| "extract_transcript (Some (Data (Some (Results (Some (Channel (Some []) # _)))))) = Inr None"
| "extract_transcript (Some (Data (Some (Results (Some (Channel (Some (Alternative t # _)) # _)))))) = Inr t"

definition audioMimeType :: "upload \<Rightarrow> jstring" where
  "audioMimeType f =
     (case mimetype f of None \<Rightarrow> str ''audio/wav''
      | Some m \<Rightarrow> if m = [] then str ''audio/wav'' else m)"

definition transcribe :: "env \<Rightarrow> upload \<Rightarrow> state \<Rightarrow> jstring outcome \<times> state" where
  "transcribe env f s =
     (case fs_readFile (filepath f) s of
        Inl e \<Rightarrow> (Throw e, s)
      | Inr audioBuffer \<Rightarrow>
          (case deepgram env (audioMimeType f) audioBuffer of
             Inl e \<Rightarrow> (Throw e, s)
           | Inr d \<Rightarrow>
               (case fs_unlink (filepath f) s of
                  Inl e \<Rightarrow> (Throw e, s)
                | Inr s1 \<Rightarrow>
                    (case extract_transcript d of
                       Inl e \<Rightarrow> (Throw e, s1)
                     | Inr None \<Rightarrow> (Return no_speech_response, s1)
                     | Inr (Some t) \<Rightarrow>
                         if t = [] \<or> trim t = [] then (Return no_speech_response, s1)
                         else (Continue t, s1)))))"

subsection \<open>Step 2: feedback and correction\<close>

definition prompt :: "jstring \<Rightarrow> jstring" where
  "prompt t =
     str ''You are a helpful English language tutor. Analyze the following speech transcript and provide constructive feedback on grammar, pronunciation (based on likely intended words), and fluency.\<newline>\<newline>Transcript: ''
     @ [0x22] @ t @ [0x22]
     @ str ''\<newline>\<newline>Please respond in this exact format:\<newline>Feedback: [Provide specific, encouraging feedback about grammar mistakes, word choice, or pronunciation issues. Be constructive and educational.]\<newline>Corrected: [Provide the corrected version of the text with proper grammar and word choice]\<newline>\<newline>Keep feedback encouraging and educational. Focus on the most important improvements.''"

text \<open>\<open>if (m) x = m[1].trim()\<close>: the fallback stays when the pattern has no match;
  \<open>m[1].trim()\<close> throws a TypeError when the group is undefined.\<close>

definition section_of :: "regex \<Rightarrow> jstring \<Rightarrow> jstring \<Rightarrow> js_error + jstring" where
  "section_of re fallback aiText =
     (case string_match re aiText of
        None \<Rightarrow> Inr fallback
      | Some None \<Rightarrow> Inl (type_error (str ''Cannot read properties of undefined (reading trim)''))
      | Some (Some c) \<Rightarrow> Inr (trim c))"

definition parse_sections :: "jstring \<Rightarrow> jstring \<Rightarrow> js_error + jstring \<times> jstring" where
  "parse_sections t aiText =
     (case section_of feedback_re (str ''No specific feedback generated.'') aiText of
        Inl e \<Rightarrow> Inl e
      | Inr fb \<Rightarrow>
          (case section_of corrected_re t aiText of
             Inl e \<Rightarrow> Inl e
           | Inr ct \<Rightarrow> Inr (fb, ct)))"

text \<open>\<open>... || ""\<close>: a missing text is the empty string.\<close>

definition aiText_of :: "jstring option \<Rightarrow> jstring" where
  "aiText_of g = (case g of None \<Rightarrow> [] | Some x \<Rightarrow> x)"

definition critique :: "env \<Rightarrow> jstring \<Rightarrow> (jstring \<times> jstring) outcome" where
  "critique env t =
     (case gemini env (prompt t) of
        Inl e \<Rightarrow> Throw e
      | Inr g \<Rightarrow>
          (case parse_sections t (aiText_of g) of Inl e \<Rightarrow> Throw e | Inr p \<Rightarrow> Continue p))"

subsection \<open>Step 3: corrected audio\<close>

definition analysisId :: "env \<Rightarrow> jstring" where
  "analysisId env =
     str ''analysis_'' @ decimal (date_now env) @ str ''_'' @ take 9 (drop 2 (math_random36 env))"

definition correctedAudioPath :: "env \<Rightarrow> jstring" where
  "correctedAudioPath env =
     dirname env @ str ''/temp'' @ str ''/speech_'' @ analysisId env @ str ''.mp3''"

text \<open>
  The gtts library is not part of the repository. Its constructor refuses an empty
  text: \<open>new gTTS('', 'en')\<close> throws \<open>new Error('No text to speak')\<close>. For every
  other text, what the constructor and \<open>save\<close> do is the outcome the environment
  gives.
\<close>

definition no_text_error :: js_error where
  "no_text_error =
     \<lparr>err_code = None, err_message = str ''No text to speak'', err_response_status = None\<rparr>"

definition gTTS :: "env \<Rightarrow> jstring \<Rightarrow> tts_outcome" where
  "gTTS env txt = (if txt = [] then TtsThrows no_text_error else gtts env txt)"

text \<open>
  \<open>fs.mkdir(tempDir, { recursive: true })\<close> creates the temp directory if it is
  missing and changes no file, so it has no effect on the state. Then the text goes to
  gtts; after a save without error the handler reads the file back and unlinks it.
\<close>

definition synthesize :: "env \<Rightarrow> jstring \<Rightarrow> state \<Rightarrow> bytes outcome \<times> state" where
  "synthesize env ct s =
     (case gTTS env ct of
        TtsThrows e \<Rightarrow> (Throw e, s)
      | TtsFailed left \<Rightarrow>
          (Throw tts_error,
           (case left of None \<Rightarrow> s
            | Some b \<Rightarrow> s\<lparr>files := (files s)(correctedAudioPath env \<mapsto> b)\<rparr>))
      | TtsSaved b \<Rightarrow>
          (let s1 = s\<lparr>files := (files s)(correctedAudioPath env \<mapsto> b)\<rparr> in
           case fs_readFile (correctedAudioPath env) s1 of
             Inl e \<Rightarrow> (Throw e, s1)
           | Inr audioBufferCorrected \<Rightarrow>
               (case fs_unlink (correctedAudioPath env) s1 of
                  Inl e \<Rightarrow> (Throw e, s1)
                | Inr s2 \<Rightarrow> (Continue audioBufferCorrected, s2))))"

subsection \<open>Step 4: store the result and answer\<close>

definition make_result :: "env \<Rightarrow> jstring \<Rightarrow> jstring \<Rightarrow> jstring \<Rightarrow> bytes \<Rightarrow> result" where
  "make_result env t fb ct b =
     \<lparr>result_id = analysisId env, transcript = t, feedback = fb, correctedText = ct,
      audio = b, timestamp = iso_timestamp env\<rparr>"

text \<open>\<open>analysisResults.set\<close> and the \<open>setTimeout\<close> of one hour.\<close>

definition store_result :: "jstring \<Rightarrow> result \<Rightarrow> state \<Rightarrow> state" where
  "store_result i r s =
     s\<lparr>analysisResults := (analysisResults s)(i \<mapsto> r),
       timers := timers s @ [(clock s + 3600000, i)]\<rparr>"

definition success_response :: "env \<Rightarrow> jstring \<Rightarrow> jstring \<Rightarrow> response" where
  "success_response env t ct =
     Response 200
       (AnalyzeBody (analysisId env) (str ''/results/'' @ analysisId env)
          (take 100 t @ (if length t > 100 then str ''...'' else []))
          (toLowerCase env ct \<noteq> toLowerCase env t))"

subsection \<open>The handler\<close>

text \<open>The try block: the response it sends, or the error it throws, and the state
  at that point.\<close>

definition analyze_try :: "env \<Rightarrow> request \<Rightarrow> state \<Rightarrow> (js_error + response) \<times> state" where
  "analyze_try env req s =
     (case req_file req of
        None \<Rightarrow> (Inr no_file_response, s)
      | Some f \<Rightarrow>
          (case transcribe env f s of
             (Throw e, s1) \<Rightarrow> (Inl e, s1)
           | (Return r, s1) \<Rightarrow> (Inr r, s1)
           | (Continue t, s1) \<Rightarrow>
               (case critique env t of
                  Throw e \<Rightarrow> (Inl e, s1)
                | Return r \<Rightarrow> (Inr r, s1)
                | Continue (fb, ct) \<Rightarrow>
                    (case synthesize env ct s1 of
                       (Throw e, s2) \<Rightarrow> (Inl e, s2)
                     | (Return r, s2) \<Rightarrow> (Inr r, s2)
                     | (Continue b, s2) \<Rightarrow>
                         (Inr (success_response env t ct),
                          store_result (analysisId env) (make_result env t fb ct b) s2)))))"

text \<open>The catch block first unlinks \<open>req.file.path\<close>, ignoring a failure of that.\<close>

definition cleanup :: "request \<Rightarrow> state \<Rightarrow> state" where
  "cleanup req s =
     (case req_file req of
        None \<Rightarrow> s
      | Some f \<Rightarrow> (case fs_unlink (filepath f) s of Inl e \<Rightarrow> s | Inr s' \<Rightarrow> s'))"

definition analyze_speech :: "env \<Rightarrow> request \<Rightarrow> state \<Rightarrow> response \<times> state" where
  "analyze_speech env req s =
     (case analyze_try env req s of
        (Inr r, s1) \<Rightarrow> (r, s1)
      | (Inl e, s1) \<Rightarrow> (error_response env e, cleanup req s1))"

section \<open>The GET routes, timers and events\<close>

definition api_analysis :: "state \<Rightarrow> jstring \<Rightarrow> response" where
  "api_analysis s i =
     (case analysisResults s i of
        None \<Rightarrow> Response 404 (ErrorBody (str ''Analysis not found'') None None)
      | Some r \<Rightarrow> Response 200 (ResultBody r))"

definition api_download :: "state \<Rightarrow> jstring \<Rightarrow> response" where
  "api_download s i =
     (case analysisResults s i of
        None \<Rightarrow> Response 404 (ErrorBody (str ''Audio file not found'') None None)
      | Some r \<Rightarrow>
          if audio r = [] then Response 404 (ErrorBody (str ''Audio file not found'') None None)
          else Response 200 (AudioBody (str ''corrected_speech_'' @ i @ str ''.mp3'') (audio r)))"

text \<open>
  A pending timer runs no earlier than its due time; how long after is up to the event
  loop. \<open>fire k\<close> runs the callback of the \<open>k\<close>-th pending timer if it is due: it deletes
  the timer's id from \<open>analysisResults\<close>, and the timer is gone (one shot).
\<close>

definition fire :: "nat \<Rightarrow> state \<Rightarrow> state" where
  "fire k s =
     (if k < length (timers s) \<and> fst (timers s ! k) \<le> clock s
      then s\<lparr>analysisResults := (analysisResults s)(snd (timers s ! k) := None),
             timers := take k (timers s) @ drop (Suc k) (timers s)\<rparr>
      else s)"

datatype event = Analyze env request | Elapse nat | Fire nat

fun step :: "state \<Rightarrow> event \<Rightarrow> state" where
  "step s (Analyze env req) = snd (analyze_speech env req s)"
| "step s (Elapse d) = s\<lparr>clock := clock s + d\<rparr>"
| "step s (Fire k) = fire k s"

definition run :: "state \<Rightarrow> event list \<Rightarrow> state" where
  "run s evs = foldl step s evs"

text \<open>The id an event stores under, if it is a request.\<close>

fun event_id :: "event \<Rightarrow> jstring option" where
  "event_id (Analyze env req) = Some (analysisId env)"
| "event_id (Elapse d) = None"
| "event_id (Fire k) = None"


section \<open>Reading a run\<close>

text \<open>
  The feedback and the corrected text that lines 152 to 160 of the handler compute from
  the generated text, through the two captures; \<open>parse_sections_eq\<close> below proves that
  \<open>parse_sections\<close> returns this pair.
\<close>

definition feedback_of :: "jstring \<Rightarrow> jstring" where
  "feedback_of ai =
     (case feedback_capture ai of
        None \<Rightarrow> str ''No specific feedback generated.'' | Some c \<Rightarrow> trim c)"

definition corrected_of :: "jstring \<Rightarrow> jstring \<Rightarrow> jstring" where
  "corrected_of t ai = (case corrected_capture ai of None \<Rightarrow> t | Some c \<Rightarrow> trim c)"

text \<open>
  The transcript with which a run leaves step 1, if it does, and the text that the
  feedback generation returns for a transcript, if the call succeeds.
\<close>

definition transcription :: "env \<Rightarrow> request \<Rightarrow> state \<Rightarrow> jstring option" where
  "transcription env req s =
     (case req_file req of
        None \<Rightarrow> None
      | Some f \<Rightarrow> (case transcribe env f s of (Continue t, s1) \<Rightarrow> Some t | _ \<Rightarrow> None))"

definition generation :: "env \<Rightarrow> jstring \<Rightarrow> jstring option" where
  "generation env t =
     (case gemini env (prompt t) of Inl e \<Rightarrow> None | Inr g \<Rightarrow> Some (aiText_of g))"

section \<open>A concrete environment\<close>

text \<open>
  One upload, one state and a family of environments in which the providers answer
  with given values; \<open>toLowerCase\<close> is instantiated with the ASCII case mapping.
\<close>

definition ascii_lower :: "jstring \<Rightarrow> jstring" where
  "ascii_lower s = map (\<lambda>c. if 0x41 \<le> c \<and> c \<le> 0x5A then c + 0x20 else c) s"

definition ex_upload :: upload where
  "ex_upload =
     \<lparr>originalname = str ''a.wav'', filesize = 4, filepath = str ''uploads/ab12'',
      mimetype = Some (str ''audio/wav'')\<rparr>"

definition ex_req :: request where
  "ex_req = \<lparr>req_file = Some ex_upload\<rparr>"

definition ex_state :: state where
  "ex_state =
     \<lparr>files = [str ''uploads/ab12'' \<mapsto> [1, 2, 3, 4]], analysisResults = Map.empty,
      timers = [], clock = 1000\<rparr>"

definition ex_data :: "jstring option \<Rightarrow> dg_data option" where
  "ex_data t = Some (Data (Some (Results (Some [Channel (Some [Alternative t])]))))"

definition ex_env ::
  "(js_error + jstring option) \<Rightarrow> (js_error + jstring option) \<Rightarrow> tts_outcome \<Rightarrow> env" where
  "ex_env t ai tts =
     \<lparr>toLowerCase = ascii_lower, node_env = None, dirname = str ''/app'',
      deepgram = (\<lambda>m b. map_sum id ex_data t),
      gemini = (\<lambda>p. ai), gtts = (\<lambda>x. tts), date_now = 17,
      math_random36 = str ''0.4fzyo82mvyr'', iso_timestamp = str ''2025-01-01T00:00:00.000Z''\<rparr>"

text \<open>Generated texts and environments of the examples: a text with \<open>Corrected:\<close> in
  the middle of a line, the example of the specification, and a text with nothing
  after \<open>Corrected:\<close>.\<close>

definition c1_text :: jstring where
  "c1_text = str ''Feedback: good Corrected: fine''"

definition c1_env :: env where
  "c1_env = ex_env (Inr (Some (str ''he go''))) (Inr (Some c1_text)) (TtsSaved [7, 7])"

definition spec_text :: jstring where
  "spec_text = str ''Feedback: Watch subject-verb agreement and past tense.\<newline>Corrected: He went to school yesterday.''"

definition spec_env :: env where
  "spec_env = ex_env (Inr (Some (str ''he go to school yesterday''))) (Inr (Some spec_text)) (TtsSaved [7, 7])"

definition c3_env :: env where
  "c3_env = ex_env (Inr (Some (str ''he go''))) (Inr (Some (str ''Corrected:  ''))) (TtsSaved [7, 7])"

text \<open>Errors as axios rejects with them, and environments in which a stage fails, no
  speech is recognised, or the corrected text differs from the transcript in letter
  case only.\<close>

definition timeout_error :: js_error where
  "timeout_error =
     \<lparr>err_code = Some (str ''ECONNABORTED''), err_message = str ''timeout of 30000ms exceeded'',
      err_response_status = None\<rparr>"

definition unauthorized_error :: js_error where
  "unauthorized_error =
     \<lparr>err_code = Some (str ''ERR_BAD_REQUEST''),
      err_message = str ''Request failed with status code 401'',
      err_response_status = Some 401\<rparr>"

definition c4_env :: env where
  "c4_env = ex_env (Inl timeout_error) (Inr None) (TtsSaved [])"

definition c5_env :: env where
  "c5_env = ex_env (Inr (Some (str ''he go''))) (Inr (Some spec_text)) (TtsFailed (Some [1]))"

definition c6_env :: env where
  "c6_env = ex_env (Inr (Some (str ''  ''))) (Inr None) (TtsSaved [])"

text \<open>Deepgram answers with a body that has \<open>results\<close> but no \<open>channels\<close> array,
  with a first channel that has no \<open>alternatives\<close> array, and with a body that has no
  \<open>results\<close>.\<close>

definition c6_no_channels_env :: env where
  "c6_no_channels_env =
     c6_env\<lparr>deepgram := (\<lambda>m b. Inr (Some (Data (Some (Results None)))))\<rparr>"

definition c6_no_alternatives_env :: env where
  "c6_no_alternatives_env =
     c6_env\<lparr>deepgram := (\<lambda>m b. Inr (Some (Data (Some (Results (Some [Channel None]))))))\<rparr>"

definition c6_no_results_env :: env where
  "c6_no_results_env = c6_env\<lparr>deepgram := (\<lambda>m b. Inr (Some (Data None)))\<rparr>"

definition c8_auth_env :: env where
  "c8_auth_env = ex_env (Inl unauthorized_error) (Inr None) (TtsSaved [])"

definition c8_dev_env :: env where
  "c8_dev_env = c5_env\<lparr>node_env := Some (str ''development'')\<rparr>"

definition c9_env :: env where
  "c9_env = ex_env (Inr (Some (str ''he go''))) (Inr (Some (str ''Corrected: HE GO''))) (TtsSaved [7, 7])"

section \<open>The timers of one id\<close>

text \<open>
  The pending timers that delete the id \<open>i\<close>, and the two situations a stored record
  can be in: its one timer is pending and the record is in the map, or the timer has
  run, which was at or after its due time, and the id is not in the map.
\<close>

definition timers_of :: "jstring \<Rightarrow> state \<Rightarrow> (nat \<times> jstring) list" where
  "timers_of i s = filter (\<lambda>p. snd p = i) (timers s)"

definition expiry_inv :: "jstring \<Rightarrow> result \<Rightarrow> nat \<Rightarrow> state \<Rightarrow> bool" where
  "expiry_inv i r due s \<longleftrightarrow>
     timers_of i s = [(due, i)] \<and> analysisResults s i = Some r
     \<or> timers_of i s = [] \<and> analysisResults s i = None \<and> due \<le> clock s"

section \<open>The patterns compute the two captures\<close>

lemma ms_lit: "ms (lit p) (s, c) = (case strip_ci p s of None \<Rightarrow> [] | Some r \<Rightarrow> [(r, c)])"
  by (induction p s rule: strip_ci.induct) auto

lemma first_cap_append:
  "first_cap (xs @ ys) = (case first_cap xs of None \<Rightarrow> first_cap ys | Some c \<Rightarrow> Some c)"
  by (cases xs) auto

lemma first_cap_concat: "first_cap (concat (map g xs)) = first_of (\<lambda>x. first_cap (g x)) xs"
  by (induction xs) (auto simp: first_cap_append split: option.splits)

lemma first_cap_Cat: "first_cap (ms (Cat a b) st) = first_of (\<lambda>x. first_cap (ms b x)) (ms a st)"
  by (simp add: first_cap_concat)

text \<open>The lazy star over \<open>[\s\S]\<close> offers every split of the input, shortest
  capture first.\<close>

lemma ms_star_any:
  "ms (Star False (Cls AnyClass)) (s, c) = map (\<lambda>k. (drop k s, c)) [0..<Suc (length s)]"
proof (induction s)
  case Nil
  show ?case by (simp add: ms.simps(6))
next
  case (Cons x xs)
  have "ms (Star False (Cls AnyClass)) (x # xs, c)
      = (x # xs, c) # ms (Star False (Cls AnyClass)) (xs, c)"
    by (subst ms.simps(6)) simp
  also have "\<dots> = map (\<lambda>k. (drop k (x # xs), c)) [0..<Suc (length (x # xs))]"
    unfolding Cons.IH by (simp add: map_upt_Suc del: upt_Suc)
  finally show ?case .
qed

lemma ms_group_any:
  "ms (Group (Star False (Cls AnyClass))) (s, c) =
     map (\<lambda>k. (drop k s, Some (take k s))) [0..<Suc (length s)]"
  by (simp add: ms_star_any del: upt_Suc)

text \<open>The greedy star over \<open>\s\<close> offers first the input with all leading white space
  read.\<close>

lemma ms_star_ws_Cons:
  "ms (Star True (Cls WhiteSpaceClass)) (x # xs, c) =
     (if isWhiteSpace x then ms (Star True (Cls WhiteSpaceClass)) (xs, c) @ [(x # xs, c)]
      else [(x # xs, c)])"
  by (subst ms.simps(6)) simp

lemma ms_star_ws_Nil: "ms (Star True (Cls WhiteSpaceClass)) ([], c) = [([], c)]"
  by (subst ms.simps(6)) simp

lemma ms_star_ws_hd:
  "\<exists>tl. ms (Star True (Cls WhiteSpaceClass)) (s, c) = (dropWhile isWhiteSpace s, c) # tl"
  by (induction s) (auto simp: ms_star_ws_Cons ms_star_ws_Nil)

lemma first_of_splits:
  "first_of (\<lambda>(s', c'). if P s' then Some c' else None)
      (map (\<lambda>k. (drop k s, Some (pre @ take k s))) [0..<Suc (length s)])
   = map_option (\<lambda>cap. Some (pre @ cap)) (lazy_capture P s)"
proof (induction s arbitrary: pre)
  case Nil
  show ?case by simp
next
  case (Cons x xs)
  have "map (\<lambda>k. (drop k (x # xs), Some (pre @ take k (x # xs)))) [0..<Suc (length (x # xs))]
      = (x # xs, Some pre)
        # map (\<lambda>k. (drop k xs, Some ((pre @ [x]) @ take k xs))) [0..<Suc (length xs)]"
    by (simp add: map_upt_Suc del: upt_Suc)
  then show ?case
    using Cons.IH [of "pre @ [x]"] by (simp add: option.map_comp comp_def del: upt_Suc)
qed

lemma lazy_capture_until:
  "lazy_capture (\<lambda>s. at_marker p s \<or> s = []) s = Some (until_marker p s)"
  by (induction s) auto

lemma lazy_capture_end: "lazy_capture (\<lambda>s. s = []) s = Some s"
  by (induction s) auto

lemma ms_lookahead_marker:
  "ms (Lookahead (Alt (lit p) EndOfInput)) (s, c) =
     (if at_marker p s \<or> s = [] then [(s, c)] else [])"
  by (auto simp: ms_lit at_marker_def split: option.splits)

lemma first_cap_lazy_lookahead:
  "first_cap (ms (Cat (Group (Star False (Cls AnyClass)))
                   (Lookahead (Alt (lit p) EndOfInput))) (s, c))
   = Some (Some (until_marker p s))"
proof -
  have "first_cap (ms (Cat (Group (Star False (Cls AnyClass)))
                   (Lookahead (Alt (lit p) EndOfInput))) (s, c))
      = first_of (\<lambda>(s', c'). if at_marker p s' \<or> s' = [] then Some c' else None)
          (map (\<lambda>k. (drop k s, Some ([] @ take k s))) [0..<Suc (length s)])"
    unfolding first_cap_Cat ms_group_any
    by (rule arg_cong2 [where f = first_of])
       (auto simp: ms_lookahead_marker fun_eq_iff simp del: upt_Suc ms.simps)
  then show ?thesis
    unfolding first_of_splits by (simp add: lazy_capture_until)
qed

lemma first_cap_lazy_end:
  "first_cap (ms (Cat (Group (Star False (Cls AnyClass))) EndOfInput) (s, c)) = Some (Some s)"
proof -
  have "first_cap (ms (Cat (Group (Star False (Cls AnyClass))) EndOfInput) (s, c))
      = first_of (\<lambda>(s', c'). if s' = [] then Some c' else None)
          (map (\<lambda>k. (drop k s, Some ([] @ take k s))) [0..<Suc (length s)])"
    unfolding first_cap_Cat ms_group_any
    by (rule arg_cong2 [where f = first_of]) (auto simp: fun_eq_iff simp del: upt_Suc)
  then show ?thesis
    unfolding first_of_splits by (simp add: lazy_capture_end)
qed

lemma first_cap_ws_then:
  assumes "\<And>s' c'. first_cap (ms k (s', c')) = Some (f s')"
  shows "first_cap (ms (Cat (Star True (Cls WhiteSpaceClass)) k) (s, c))
       = Some (f (dropWhile isWhiteSpace s))"
proof -
  obtain tl where "ms (Star True (Cls WhiteSpaceClass)) (s, c) = (dropWhile isWhiteSpace s, c) # tl"
    using ms_star_ws_hd by blast
  then show ?thesis
    unfolding first_cap_Cat by (simp add: assms)
qed

lemma first_cap_feedback_re:
  "first_cap (ms feedback_re (s, None)) =
     map_option (\<lambda>r. Some (until_marker (str ''\<newline>Corrected:'') (dropWhile isWhiteSpace r)))
       (strip_ci (str ''Feedback:'') s)"
  unfolding feedback_re_def first_cap_Cat [of "lit (str ''Feedback:'')"] ms_lit
  by (cases "strip_ci (str ''Feedback:'') s")
     (simp_all add: first_cap_ws_then [OF first_cap_lazy_lookahead] del: ms.simps)

lemma first_cap_corrected_re:
  "first_cap (ms corrected_re (s, None)) =
     map_option (\<lambda>r. Some (dropWhile isWhiteSpace r)) (strip_ci (str ''Corrected:'') s)"
  unfolding corrected_re_def first_cap_Cat [of "lit (str ''Corrected:'')"] ms_lit
  by (cases "strip_ci (str ''Corrected:'') s")
     (simp_all add: first_cap_ws_then [OF first_cap_lazy_end] del: ms.simps)

lemma string_match_first_cap:
  "string_match r s =
     (case first_cap (ms r (s, None)) of Some c \<Rightarrow> Some c
      | None \<Rightarrow> (case s of [] \<Rightarrow> None | x # xs \<Rightarrow> string_match r xs))"
  by (cases s; cases "ms r (s, None)") auto

text \<open>The feedback pattern: the text after the leftmost \<open>Feedback:\<close>, without its
  leading white space, up to the first position where a newline and \<open>Corrected:\<close>
  begin.\<close>

lemma string_match_feedback_re:
  "string_match feedback_re s = map_option Some (feedback_capture s)"
proof (induction s)
  case Nil
  show ?case
    by (subst string_match_first_cap)
       (simp add: first_cap_feedback_re feedback_capture_def option.map_comp comp_def
             split: option.splits)
next
  case (Cons x xs)
  show ?case
    apply (subst string_match_first_cap)
    using Cons.IH
    by (simp add: first_cap_feedback_re feedback_capture_def option.map_comp comp_def
             split: option.splits)
qed

text \<open>The corrected pattern: the text after the leftmost \<open>Corrected:\<close>, without its
  leading white space, to the end.\<close>

lemma string_match_corrected_re:
  "string_match corrected_re s = map_option Some (corrected_capture s)"
proof (induction s)
  case Nil
  show ?case
    by (subst string_match_first_cap)
       (simp add: first_cap_corrected_re corrected_capture_def option.map_comp comp_def
             split: option.splits)
next
  case (Cons x xs)
  show ?case
    apply (subst string_match_first_cap)
    using Cons.IH
    by (simp add: first_cap_corrected_re corrected_capture_def option.map_comp comp_def
             split: option.splits)
qed

section \<open>The handler, stage by stage\<close>

lemma section_of_feedback:
  "section_of feedback_re fb ai = Inr (case feedback_capture ai of None \<Rightarrow> fb | Some c \<Rightarrow> trim c)"
  by (simp add: section_of_def string_match_feedback_re split: option.splits)

lemma section_of_corrected:
  "section_of corrected_re fb ai = Inr (case corrected_capture ai of None \<Rightarrow> fb | Some c \<Rightarrow> trim c)"
  by (simp add: section_of_def string_match_corrected_re split: option.splits)

lemma parse_sections_eq: "parse_sections t ai = Inr (feedback_of ai, corrected_of t ai)"
  by (simp add: parse_sections_def section_of_feedback section_of_corrected feedback_of_def corrected_of_def)

lemma critique_generation:
  "generation env t = Some ai \<Longrightarrow> critique env t = Continue (feedback_of ai, corrected_of t ai)"
  by (auto simp: generation_def critique_def parse_sections_eq split: sum.splits)

lemma critique_cases:
  "critique env t = Throw e \<Longrightarrow> gemini env (prompt t) = Inl e"
  "critique env t \<noteq> Return r"
  by (auto simp: critique_def parse_sections_eq split: sum.splits)

lemma fs_unlink_frame:
  "fs_unlink p s = Inr s' \<Longrightarrow>
     analysisResults s' = analysisResults s \<and> timers s' = timers s \<and> clock s' = clock s
     \<and> files s' = (files s)(p := None)"
  by (auto simp: fs_unlink_def split: option.splits)

lemma transcribe_frame:
  "transcribe env f s = (out, s') \<Longrightarrow>
     analysisResults s' = analysisResults s \<and> timers s' = timers s \<and> clock s' = clock s"
  by (auto simp: transcribe_def split: sum.splits option.splits if_splits dest: fs_unlink_frame)

lemma synthesize_frame:
  "synthesize env ct s = (out, s') \<Longrightarrow>
     analysisResults s' = analysisResults s \<and> timers s' = timers s \<and> clock s' = clock s"
  by (auto simp: synthesize_def gTTS_def Let_def fs_readFile_def fs_unlink_def
           split: tts_outcome.splits sum.splits option.splits if_splits)

lemma synthesize_no_Return: "synthesize env ct s \<noteq> (Return r, s')"
  by (auto simp: synthesize_def gTTS_def Let_def fs_readFile_def fs_unlink_def
           split: tts_outcome.splits sum.splits option.splits if_splits)

lemma synthesize_Continue:
  "synthesize env ct s = (Continue b, s') \<longleftrightarrow>
     ct \<noteq> [] \<and> gtts env ct = TtsSaved b
     \<and> s' = s\<lparr>files := (files s)(correctedAudioPath env := None)\<rparr>"
  by (auto simp: synthesize_def gTTS_def Let_def fs_readFile_def fs_unlink_def
           split: tts_outcome.splits sum.splits option.splits if_splits)

lemma cleanup_frame:
  "analysisResults (cleanup req s) = analysisResults s \<and> timers (cleanup req s) = timers s
   \<and> clock (cleanup req s) = clock s"
  by (auto simp: cleanup_def split: option.splits sum.splits dest: fs_unlink_frame)

lemma error_response_status:
  "\<exists>b. error_response env e = Response 408 b \<or> error_response env e = Response 500 b"
  by (simp add: error_response_def)

lemma error_response_not_200: "error_response env e \<noteq> Response 200 b"
  by (simp add: error_response_def)

lemma analyze_speech_200:
  assumes tr: "transcription env req s = Some t"
      and ge: "generation env t = Some ai"
      and ok: "analyze_speech env req s = (Response 200 b, s')"
  shows "\<exists>mp3 s2. corrected_of t ai \<noteq> [] \<and> gtts env (corrected_of t ai) = TtsSaved mp3
           \<and> s' = store_result (analysisId env) (make_result env t (feedback_of ai) (corrected_of t ai) mp3) s2
           \<and> analysisResults s2 = analysisResults s \<and> timers s2 = timers s \<and> clock s2 = clock s
           \<and> Response 200 b = success_response env t (corrected_of t ai)"
proof -
  from tr obtain f s1 where f: "req_file req = Some f" and t1: "transcribe env f s = (Continue t, s1)"
    by (auto simp: transcription_def split: option.splits prod.splits outcome.splits)
  have fr1: "analysisResults s1 = analysisResults s \<and> timers s1 = timers s \<and> clock s1 = clock s"
    using transcribe_frame [OF t1] .
  have cr: "critique env t = Continue (feedback_of ai, corrected_of t ai)"
    using critique_generation [OF ge] .
  obtain out s2 where sy: "synthesize env (corrected_of t ai) s1 = (out, s2)"
    by (cases "synthesize env (corrected_of t ai) s1") auto
  have fr2: "analysisResults s2 = analysisResults s1 \<and> timers s2 = timers s1 \<and> clock s2 = clock s1"
    using synthesize_frame [OF sy] .
  show ?thesis
  proof (cases out)
    case (Continue mp3)
    with sy have "corrected_of t ai \<noteq> [] \<and> gtts env (corrected_of t ai) = TtsSaved mp3"
      by (simp add: synthesize_Continue)
    moreover have "analyze_speech env req s =
        (success_response env t (corrected_of t ai),
         store_result (analysisId env) (make_result env t (feedback_of ai) (corrected_of t ai) mp3) s2)"
      using f t1 cr sy Continue by (simp add: analyze_speech_def analyze_try_def)
    ultimately show ?thesis using ok fr1 fr2 by auto
  next
    case (Return r)
    with sy synthesize_no_Return show ?thesis by blast
  next
    case (Throw e)
    then have "analyze_speech env req s = (error_response env e, cleanup req s2)"
      using f t1 cr sy by (simp add: analyze_speech_def analyze_try_def)
    with ok error_response_not_200 show ?thesis by auto
  qed
qed

lemma trim_Nil [simp]: "trim [] = []"
  by (simp add: trim_def)

lemma ex_plain: "trim (str ''he go'') \<noteq> []"
  by (simp add: trim_def str_def isWhiteSpace_def)

lemma ex_transcription:
  "trim t \<noteq> [] \<Longrightarrow> transcription (ex_env (Inr (Some t)) ai tts) ex_req ex_state = Some t"
  by (auto simp: transcription_def ex_req_def ex_env_def ex_state_def ex_upload_def transcribe_def
        fs_readFile_def fs_unlink_def ex_data_def audioMimeType_def)

lemma ex_generation: "generation (ex_env t (Inr (Some ai)) tts) t' = Some ai"
  by (simp add: generation_def ex_env_def aiText_of_def)

lemma analyze_speech_saved:
  assumes tr: "transcription env req s = Some t"
      and ge: "generation env t = Some ai"
      and sv: "gtts env (corrected_of t ai) = TtsSaved mp3"
      and ne: "corrected_of t ai \<noteq> []"
  shows "\<exists>s2. analyze_speech env req s =
           (success_response env t (corrected_of t ai),
            store_result (analysisId env) (make_result env t (feedback_of ai) (corrected_of t ai) mp3) s2)"
proof -
  from tr obtain f s1 where f: "req_file req = Some f" and t1: "transcribe env f s = (Continue t, s1)"
    by (auto simp: transcription_def split: option.splits prod.splits outcome.splits)
  have cr: "critique env t = Continue (feedback_of ai, corrected_of t ai)"
    using critique_generation [OF ge] .
  have "synthesize env (corrected_of t ai) s1 = (Continue mp3, s1\<lparr>files := (files s1)(correctedAudioPath env := None)\<rparr>)"
    using sv ne by (simp add: synthesize_Continue)
  then show ?thesis
    using f t1 cr by (auto simp: analyze_speech_def analyze_try_def)
qed

lemma ex_run_200:
  assumes "trim t \<noteq> []" and ne: "corrected_of t ai \<noteq> []"
  shows "\<exists>b s'. analyze_speech (ex_env (Inr (Some t)) (Inr (Some ai)) (TtsSaved mp3)) ex_req ex_state = (Response 200 b, s')"
proof -
  have "gtts (ex_env (Inr (Some t)) (Inr (Some ai)) (TtsSaved mp3)) (corrected_of t ai) = TtsSaved mp3"
    by (simp add: ex_env_def)
  from analyze_speech_saved [OF ex_transcription [OF assms(1)] ex_generation this ne]
  show ?thesis by (auto simp: success_response_def)
qed

lemma stored_fields:
  "analysisResults (store_result i r s) i = Some r"
  by (simp add: store_result_def)

section \<open>Markers and captures, declaratively\<close>

lemma trim_dropWhile: "trim (dropWhile isWhiteSpace s) = trim s"
  by (simp add: trim_def dropWhile_idem)

lemma dropWhile_all_iff: "dropWhile P xs = [] \<longleftrightarrow> (\<forall>x\<in>set xs. P x)"
  by (induction xs) auto

lemma dropWhile_rest_iff: "(\<forall>x\<in>set (dropWhile P xs). P x) \<longleftrightarrow> dropWhile P xs = []"
proof (cases "dropWhile P xs")
  case Nil
  show ?thesis unfolding Nil by simp
next
  case (Cons a l)
  with hd_dropWhile [of P xs] have "\<not> P a" by simp
  with Cons show ?thesis by auto
qed

lemma trim_empty_iff: "trim s = [] \<longleftrightarrow> (\<forall>c\<in>set s. isWhiteSpace c)"
proof -
  have "trim s = [] \<longleftrightarrow> (\<forall>c\<in>set (dropWhile isWhiteSpace s). isWhiteSpace c)"
    by (simp add: trim_def dropWhile_all_iff)
  then show ?thesis
    by (simp add: dropWhile_rest_iff dropWhile_all_iff)
qed

lemma strip_ci_Some_iff:
  "strip_ci p s = Some r \<longleftrightarrow>
     (\<exists>m. s = m @ r \<and> length m = length p \<and> map canonicalize m = map canonicalize p)"
proof (induction p s rule: strip_ci.induct)
  case (1 s)
  show ?case by auto
next
  case (2 p ps)
  show ?case by auto
next
  case (3 p ps x xs)
  show ?case
  proof
    assume "strip_ci (p # ps) (x # xs) = Some r"
    then have c: "canonicalize x = canonicalize p" and "strip_ci ps xs = Some r"
      by (auto split: if_splits)
    with 3 obtain m where "xs = m @ r" "length m = length ps" "map canonicalize m = map canonicalize ps"
      by auto
    with c show "\<exists>m. x # xs = m @ r \<and> length m = length (p # ps) \<and> map canonicalize m = map canonicalize (p # ps)"
      by (intro exI [of _ "x # m"]) simp
  next
    assume "\<exists>m. x # xs = m @ r \<and> length m = length (p # ps) \<and> map canonicalize m = map canonicalize (p # ps)"
    then obtain m where m: "x # xs = m @ r" "length m = length (p # ps)" "map canonicalize m = map canonicalize (p # ps)"
      by blast
    then obtain m' where m': "m = x # m'" by (cases m) auto
    with m have "canonicalize x = canonicalize p" "xs = m' @ r" "length m' = length ps" "map canonicalize m' = map canonicalize ps"
      by auto
    with 3 show "strip_ci (p # ps) (x # xs) = Some r" by auto
  qed
qed

lemma find_ci_Some:
  "find_ci p s = Some r \<Longrightarrow>
     \<exists>pre m. s = pre @ m @ r \<and> map canonicalize m = map canonicalize p
        \<and> (\<forall>k<length pre. \<not> at_marker p (drop k s))"
proof (induction s)
  case Nil
  then show ?case by (auto simp: strip_ci_Some_iff)
next
  case (Cons x xs)
  show ?case
  proof (cases "strip_ci p (x # xs)")
    case (Some r')
    with Cons.prems have "strip_ci p (x # xs) = Some r" by simp
    then obtain m where "x # xs = m @ r" "map canonicalize m = map canonicalize p"
      by (auto simp: strip_ci_Some_iff)
    then show ?thesis by (intro exI [of _ "[]"] exI [of _ m]) simp
  next
    case None
    with Cons.prems have "find_ci p xs = Some r" by simp
    with Cons.IH obtain pre m where pm: "xs = pre @ m @ r" "map canonicalize m = map canonicalize p"
      "\<forall>k<length pre. \<not> at_marker p (drop k xs)" by blast
    have "\<forall>k<length (x # pre). \<not> at_marker p (drop k (x # xs))"
    proof (intro allI impI)
      fix k assume "k < length (x # pre)"
      then show "\<not> at_marker p (drop k (x # xs))"
        using None pm(3) by (cases k) (auto simp: at_marker_def)
    qed
    with pm show ?thesis by (intro exI [of _ "x # pre"] exI [of _ m]) simp
  qed
qed

lemma find_ci_append:
  "map canonicalize m = map canonicalize p \<Longrightarrow> find_ci p (pre @ m @ post) \<noteq> None"
proof (induction pre)
  case Nil
  have "strip_ci p (m @ post) = Some post"
    using Nil map_eq_imp_length_eq [OF Nil] by (auto simp: strip_ci_Some_iff)
  then show ?case by (cases "m @ post") auto
next
  case (Cons x pre)
  then show ?case by (auto split: option.splits)
qed

lemma contains_ci_iff:
  "contains_ci p s \<longleftrightarrow> (\<exists>pre m post. s = pre @ m @ post \<and> map canonicalize m = map canonicalize p)"
proof
  assume "contains_ci p s"
  then obtain r where "find_ci p s = Some r" by (auto simp: contains_ci_def)
  from find_ci_Some [OF this] show "\<exists>pre m post. s = pre @ m @ post \<and> map canonicalize m = map canonicalize p"
    by blast
next
  assume "\<exists>pre m post. s = pre @ m @ post \<and> map canonicalize m = map canonicalize p"
  then show "contains_ci p s" unfolding contains_ci_def using find_ci_append by blast
qed

lemma until_marker_decomp:
  "\<exists>tail. s = until_marker p s @ tail \<and> (tail = [] \<or> at_marker p tail)
     \<and> (\<forall>k<length (until_marker p s). \<not> at_marker p (drop k s))"
proof (induction s)
  case Nil
  show ?case by simp
next
  case (Cons x xs)
  show ?case
  proof (cases "at_marker p (x # xs)")
    case True
    then show ?thesis by simp
  next
    case False
    from Cons obtain tail where t: "xs = until_marker p xs @ tail" "tail = [] \<or> at_marker p tail"
      "\<forall>k<length (until_marker p xs). \<not> at_marker p (drop k xs)" by blast
    have "\<forall>k<length (until_marker p (x # xs)). \<not> at_marker p (drop k (x # xs))"
    proof (intro allI impI)
      fix k assume "k < length (until_marker p (x # xs))"
      then show "\<not> at_marker p (drop k (x # xs))"
        using False t(3) by (cases k) auto
    qed
    moreover have "x # xs = until_marker p (x # xs) @ tail"
      using False t(1) by simp
    ultimately show ?thesis using t(2) by blast
  qed
qed

lemma until_marker_append:
  "(\<forall>k<length a. \<not> at_marker p (drop k (a @ w))) \<Longrightarrow> until_marker p (a @ w) = a @ until_marker p w"
proof (induction a)
  case Nil
  show ?case by simp
next
  case (Cons x a)
  have "\<not> at_marker p (x # a @ w)" using Cons.prems [rule_format, of 0] by simp
  moreover have "\<forall>k<length a. \<not> at_marker p (drop k (a @ w))"
    using Cons.prems [rule_format, of "Suc k" for k] by simp
  ultimately show ?case using Cons.IH by simp
qed

lemma transcription_nonempty: "transcription env req s = Some t \<Longrightarrow> trim t \<noteq> []"
  by (auto simp: transcription_def transcribe_def
           split: option.splits prod.splits outcome.splits sum.splits if_splits)

lemma ex_stored:
  assumes "trim t \<noteq> []" and ne: "corrected_of t ai \<noteq> []"
  shows "fst (analyze_speech (ex_env (Inr (Some t)) (Inr (Some ai)) (TtsSaved mp3)) ex_req ex_state)
           = success_response (ex_env (Inr (Some t)) (Inr (Some ai)) (TtsSaved mp3)) t (corrected_of t ai)
       \<and> analysisResults (snd (analyze_speech (ex_env (Inr (Some t)) (Inr (Some ai)) (TtsSaved mp3)) ex_req ex_state))
            (analysisId (ex_env (Inr (Some t)) (Inr (Some ai)) (TtsSaved mp3)))
           = Some (make_result (ex_env (Inr (Some t)) (Inr (Some ai)) (TtsSaved mp3)) t
                     (feedback_of ai) (corrected_of t ai) mp3)"
proof -
  have "gtts (ex_env (Inr (Some t)) (Inr (Some ai)) (TtsSaved mp3)) (corrected_of t ai) = TtsSaved mp3"
    by (simp add: ex_env_def)
  from analyze_speech_saved [OF ex_transcription [OF assms(1)] ex_generation this ne]
  show ?thesis by (auto simp: stored_fields)
qed

lemma ex_long: "trim (str ''he go to school yesterday'') \<noteq> []"
  by (simp add: trim_def str_def isWhiteSpace_def)

lemmas string_eval = str_def canonicalize_def isWhiteSpace_def trim_def at_marker_def

lemma corrected_of_no_marker:
  "\<not> contains_ci (str ''Corrected:'') ai \<Longrightarrow> corrected_of t ai = t"
  by (simp add: corrected_of_def corrected_capture_def contains_ci_def)

lemma spec_corrected_of:
  "corrected_of (str ''he go to school yesterday'') spec_text = str ''He went to school yesterday.''"
  by (simp add: spec_text_def corrected_of_def corrected_capture_def string_eval)

lemma spec_corrected_of_plain:
  "corrected_of (str ''he go'') spec_text = str ''He went to school yesterday.''"
  by (simp add: spec_text_def corrected_of_def corrected_capture_def string_eval)

lemma c1_corrected_of: "corrected_of (str ''he go'') c1_text = str ''fine''"
  by (simp add: c1_text_def corrected_of_def corrected_capture_def string_eval)

lemma spec_ne: "corrected_of (str ''he go to school yesterday'') spec_text \<noteq> []"
  unfolding spec_corrected_of by (simp add: str_def)

lemma spec_plain_ne: "corrected_of (str ''he go'') spec_text \<noteq> []"
  unfolding spec_corrected_of_plain by (simp add: str_def)

lemma c1_ne: "corrected_of (str ''he go'') c1_text \<noteq> []"
  unfolding c1_corrected_of by (simp add: str_def)

lemma c1_feedback_of: "feedback_of c1_text = str ''good Corrected: fine''"
  by (simp add: c1_text_def feedback_of_def feedback_capture_def string_eval)

lemma c1_spec_feedback: "spec_feedback c1_text = Some (str ''good'')"
  by (simp add: c1_text_def spec_feedback_def string_eval)

subsection \<open>The marker at the start of a line\<close>

lemma canonicalize_newline: "canonicalize x = 0x0A \<Longrightarrow> x = 0x0A"
  unfolding canonicalize_def by (simp split: if_splits)

lemma canonicalize_whitespace: "isWhiteSpace x \<Longrightarrow> canonicalize x = x"
proof -
  assume "isWhiteSpace x"
  then consider "x \<in> {0x09, 0x0A, 0x0B, 0x0C, 0x0D, 0x20, 0xA0, 0x1680, 0x2028, 0x2029, 0x202F,
          0x205F, 0x3000, 0xFEFF}" | "0x2000 \<le> x \<and> x \<le> 0x200A"
    unfolding isWhiteSpace_def by blast
  then show ?thesis
  proof cases
    case 1
    then show ?thesis unfolding canonicalize_def by (elim insertE) simp_all
  next
    case 2
    then have "\<not> x \<le> 0x7A" by (simp add: word_le_nat_alt)
    then show ?thesis unfolding canonicalize_def by simp
  qed
qed

lemma corrected_marker_canon:
  "map canonicalize (str ''Corrected:'') = [0x43, 0x4F, 0x52, 0x52, 0x45, 0x43, 0x54, 0x45, 0x44, 0x3A]"
  by (simp add: str_def canonicalize_def)

lemma newline_marker: "str ''\<newline>Corrected:'' = 0x0A # str ''Corrected:''"
  by (simp add: str_def)

lemma at_newline_marker_iff:
  "at_marker (str ''\<newline>Corrected:'') s \<longleftrightarrow>
     (\<exists>m z. s = 0x0A # m @ z \<and> map canonicalize m = map canonicalize (str ''Corrected:''))"
proof
  assume "at_marker (str ''\<newline>Corrected:'') s"
  then obtain r where st: "strip_ci (0x0A # str ''Corrected:'') s = Some r"
    unfolding at_marker_def newline_marker by blast
  then obtain x xs where s: "s = x # xs"
    by (cases s) simp_all
  from st have c: "canonicalize x = canonicalize 0x0A"
    and r: "strip_ci (str ''Corrected:'') xs = Some r"
    unfolding s strip_ci.simps by (simp_all split: if_splits)
  have "canonicalize (0x0A :: cu) = 0x0A" by (simp add: canonicalize_def)
  with c have "x = 0x0A" using canonicalize_newline by simp
  moreover from r obtain m where "xs = m @ r" "map canonicalize m = map canonicalize (str ''Corrected:'')"
    unfolding strip_ci_Some_iff by blast
  ultimately show "\<exists>m z. s = 0x0A # m @ z \<and> map canonicalize m = map canonicalize (str ''Corrected:'')"
    using s by blast
next
  assume "\<exists>m z. s = 0x0A # m @ z \<and> map canonicalize m = map canonicalize (str ''Corrected:'')"
  then obtain m z where s: "s = 0x0A # m @ z" and m: "map canonicalize m = map canonicalize (str ''Corrected:'')"
    by blast
  have "strip_ci (str ''Corrected:'') (m @ z) = Some z"
    unfolding strip_ci_Some_iff using m map_eq_imp_length_eq [OF m] by blast
  then show "at_marker (str ''\<newline>Corrected:'') s"
    unfolding at_marker_def newline_marker s by simp
qed

lemma marker_no_newline:
  assumes m: "map canonicalize m = map canonicalize (str ''Corrected:'')" and x: "x \<in> set m"
  shows "canonicalize x \<noteq> 0x0A"
proof -
  have "canonicalize x \<in> set (map canonicalize m)" using x by simp
  then show ?thesis unfolding m corrected_marker_canon by auto
qed

lemma marker_ends:
  assumes m: "map canonicalize m = map canonicalize (str ''Corrected:'')"
  shows "m \<noteq> [] \<and> \<not> isWhiteSpace (last m)"
proof -
  have ne: "m \<noteq> []" using m by (auto simp: corrected_marker_canon)
  then have "canonicalize (last m) = last (map canonicalize m)" by (simp add: last_map)
  then have c: "canonicalize (last m) = 0x3A" unfolding m corrected_marker_canon by simp
  have "\<not> isWhiteSpace (last m)"
  proof
    assume w: "isWhiteSpace (last m)"
    with c canonicalize_whitespace have "last m = 0x3A" by metis
    with w show False by (simp add: isWhiteSpace_def)
  qed
  with ne show ?thesis by simp
qed

lemma until_marker_past_occurrence:
  assumes m: "map canonicalize m = map canonicalize (str ''Corrected:'')"
      and h1: "a = [] \<or> last a \<noteq> 0x0A"
      and h2: "\<forall>k. Suc k < length a \<longrightarrow> \<not> at_marker (str ''\<newline>Corrected:'') (drop k (a @ m @ z))"
  shows "until_marker (str ''\<newline>Corrected:'') (a @ m @ z)
         = a @ m @ until_marker (str ''\<newline>Corrected:'') z"
proof -
  let ?p = "str ''\<newline>Corrected:''"
  have a: "\<forall>k<length a. \<not> at_marker ?p (drop k (a @ m @ z))"
  proof (intro allI impI)
    fix k assume k: "k < length a"
    show "\<not> at_marker ?p (drop k (a @ m @ z))"
    proof (cases "Suc k < length a")
      case True
      with h2 show ?thesis by blast
    next
      case False
      with k have ka: "k = length a - 1" and ne: "a \<noteq> []" by auto
      then have "drop k a = [last a]"
        by (metis append_butlast_last_id append_eq_conv_conj length_butlast)
      then have "drop k (a @ m @ z) = last a # m @ z" using k by simp
      moreover have "last a \<noteq> 0x0A" using h1 ne by simp
      ultimately show ?thesis by (auto simp: at_newline_marker_iff)
    qed
  qed
  have b: "\<forall>k<length m. \<not> at_marker ?p (drop k (m @ z))"
  proof (intro allI impI)
    fix k assume k: "k < length m"
    then have "drop k (m @ z) = (m ! k) # drop (Suc k) m @ z"
      by (simp add: Cons_nth_drop_Suc)
    moreover have "canonicalize (m ! k) \<noteq> 0x0A"
      using marker_no_newline [OF m] k by simp
    ultimately show "\<not> at_marker ?p (drop k (m @ z))"
      by (auto simp: at_newline_marker_iff canonicalize_def)
  qed
  show ?thesis
    using until_marker_append [OF a] until_marker_append [OF b] by simp
qed

lemma dropWhile_keeps_suffix:
  "ys \<noteq> [] \<Longrightarrow> \<not> P (hd ys) \<Longrightarrow> \<exists>v. dropWhile P (xs @ ys) = v @ ys"
proof (induction xs)
  case Nil
  then have "dropWhile P ys = ys" by (cases ys) auto
  then show ?case by (intro exI [of _ "[]"]) simp
next
  case (Cons x xs)
  then obtain v where "dropWhile P (xs @ ys) = v @ ys" by blast
  then show ?case by (cases "P x") (auto intro: exI [of _ "x # xs"])
qed

lemma trim_keeps_occurrence:
  assumes hd: "\<not> isWhiteSpace (hd (a @ m))" and m: "m \<noteq> []" "\<not> isWhiteSpace (last m)"
  shows "\<exists>v. trim (a @ m @ w) = a @ m @ v"
proof -
  have "hd (a @ m @ w) = hd (a @ m)" using m(1) by (cases a; cases m) auto
  then have 1: "dropWhile isWhiteSpace (a @ m @ w) = a @ m @ w"
    using hd m(1) by (cases "a @ m @ w") auto
  have "rev m @ rev a \<noteq> []" "\<not> isWhiteSpace (hd (rev m @ rev a))"
    using m by (simp_all add: hd_rev)
  with dropWhile_keeps_suffix [of "rev m @ rev a" isWhiteSpace "rev w"] obtain v where
    "dropWhile isWhiteSpace (rev w @ rev m @ rev a) = v @ rev m @ rev a" by auto
  then have "trim (a @ m @ w) = a @ m @ rev v"
    by (simp add: trim_def 1)
  then show ?thesis by blast
qed

lemma no_newline_no_marker:
  assumes "0x0A \<notin> set a" and k: "k < length a"
  shows "\<not> at_marker (str ''\<newline>Corrected:'') (drop k (a @ w))"
proof -
  have "drop k (a @ w) = (a ! k) # drop (Suc k) a @ w"
    using k by (simp add: Cons_nth_drop_Suc)
  moreover have "a ! k \<noteq> 0x0A" using assms by (metis nth_mem)
  ultimately show ?thesis by (simp add: at_newline_marker_iff)
qed

section \<open>Every way through the handler\<close>

lemma transcribe_Return: "transcribe env f s = (Return r, s1) \<Longrightarrow> r = no_speech_response"
  by (auto simp: transcribe_def split: sum.splits option.splits if_splits)

lemma success_response_200: "\<exists>b. success_response env t ct = Response 200 b"
  by (simp add: success_response_def)

lemma no_file_response_400: "\<exists>b. no_file_response = Response 400 b"
  by (simp add: no_file_response_def)

lemma no_speech_response_400: "\<exists>b. no_speech_response = Response 400 b"
  by (simp add: no_speech_response_def)

text \<open>Every way through the try block: the success path, which stores one record on
  top of a state with the same store, timers and clock; or an error or a 400 response,
  with the store, the timers and the clock as they were.\<close>

lemma analyze_try_cases:
  assumes "analyze_try env req s = (out, s1)"
  shows "(\<exists>t fb ct mp3 s2. out = Inr (success_response env t ct)
            \<and> s1 = store_result (analysisId env) (make_result env t fb ct mp3) s2
            \<and> analysisResults s2 = analysisResults s \<and> timers s2 = timers s \<and> clock s2 = clock s
            \<and> ct \<noteq> [])
       \<or> ((\<exists>e. out = Inl e) \<or> out = Inr no_file_response \<or> out = Inr no_speech_response)
          \<and> analysisResults s1 = analysisResults s \<and> timers s1 = timers s \<and> clock s1 = clock s"
proof (cases "req_file req")
  case None
  with assms show ?thesis by (auto simp: analyze_try_def)
next
  case (Some f)
  obtain o1 s1' where t1: "transcribe env f s = (o1, s1')" by (cases "transcribe env f s") auto
  note fr1 = transcribe_frame [OF t1]
  show ?thesis
  proof (cases o1)
    case (Throw e)
    with assms Some t1 fr1 show ?thesis by (auto simp: analyze_try_def)
  next
    case (Return r)
    with t1 have "r = no_speech_response" by (simp add: transcribe_Return)
    with assms Some t1 fr1 Return show ?thesis by (auto simp: analyze_try_def)
  next
    case (Continue t)
    show ?thesis
    proof (cases "critique env t")
      case (Throw e)
      with assms Some t1 fr1 Continue show ?thesis by (auto simp: analyze_try_def)
    next
      case (Return r)
      with critique_cases(2) show ?thesis by blast
    next
      case c: (Continue p)
      obtain fb ct where p: "p = (fb, ct)" by (cases p) auto
      obtain o3 s3 where sy: "synthesize env ct s1' = (o3, s3)" by (cases "synthesize env ct s1'") auto
      note fr3 = synthesize_frame [OF sy]
      show ?thesis
      proof (cases o3)
        case (Throw e)
        with assms Some t1 fr1 fr3 Continue c p sy show ?thesis by (auto simp: analyze_try_def)
      next
        case (Return r)
        with sy synthesize_no_Return show ?thesis by blast
      next
        case (Continue mp3)
        with assms Some t1 c p sy \<open>o1 = Continue t\<close>
        have "out = Inr (success_response env t ct)"
          "s1 = store_result (analysisId env) (make_result env t fb ct mp3) s3"
          by (simp_all add: analyze_try_def)
        moreover have "ct \<noteq> []" using sy Continue by (simp add: synthesize_Continue)
        ultimately show ?thesis using fr1 fr3 by auto
      qed
    qed
  qed
qed

text \<open>A stage that throws ends the run with status 408 or 500.\<close>

lemma thrown_error_status:
  assumes "analyze_try env req s = (Inl e, s1)"
  shows "\<exists>st b. analyze_speech env req s = (Response st b, cleanup req s1) \<and> (st = 408 \<or> st = 500)"
  using assms error_response_status [of env e] by (auto simp: analyze_speech_def)

lemma ex_try_deepgram_error:
  "analyze_try (ex_env (Inl e) ai tts) ex_req ex_state = (Inl e, ex_state)"
  by (simp add: analyze_try_def ex_req_def ex_env_def ex_state_def ex_upload_def transcribe_def
        fs_readFile_def)

lemma try_tts_failed:
  assumes tr: "transcription env req s = Some t"
      and ge: "generation env t = Some ai"
      and tf: "gtts env (corrected_of t ai) = TtsFailed left"
      and ne: "corrected_of t ai \<noteq> []"
  shows "\<exists>s1. analyze_try env req s = (Inl tts_error, s1)"
proof -
  from tr obtain f s1 where f: "req_file req = Some f" and t1: "transcribe env f s = (Continue t, s1)"
    by (auto simp: transcription_def split: option.splits prod.splits outcome.splits)
  have cr: "critique env t = Continue (feedback_of ai, corrected_of t ai)"
    using critique_generation [OF ge] .
  show ?thesis
    using f t1 cr tf ne by (simp add: analyze_try_def synthesize_def gTTS_def)
qed

lemma transcription_example:
  assumes "deepgram env = (\<lambda>m b. Inr (ex_data (Some t)))" and "trim t \<noteq> []"
  shows "transcription env ex_req ex_state = Some t"
  using assms
  by (auto simp: transcription_def ex_req_def ex_state_def ex_upload_def transcribe_def
        fs_readFile_def fs_unlink_def ex_data_def audioMimeType_def)

lemma generation_example:
  assumes "gemini env = (\<lambda>p. Inr (Some ai))"
  shows "generation env t = Some ai"
  using assms by (simp add: generation_def aiText_of_def)

lemma c5_path: "correctedAudioPath c5_env \<noteq> str ''uploads/ab12''"
  by (simp add: correctedAudioPath_def c5_env_def ex_env_def str_def)

lemma tts_error_not_timeout:
  "err_code tts_error \<noteq> Some (str ''ECONNABORTED'')
   \<and> \<not> string_includes (str ''timeout'') (err_message tts_error)
   \<and> err_response_status tts_error \<noteq> Some 401"
  by (simp add: tts_error_def str_def)

lemma c5_try: "\<exists>s1. analyze_try c5_env ex_req ex_state = (Inl tts_error, s1)"
proof -
  have "transcription c5_env ex_req ex_state = Some (str ''he go'')"
    unfolding c5_env_def by (rule ex_transcription [OF ex_plain])
  moreover have "generation c5_env (str ''he go'') = Some spec_text"
    unfolding c5_env_def by (rule ex_generation)
  moreover have "gtts c5_env (corrected_of (str ''he go'') spec_text) = TtsFailed (Some [1])"
    by (simp add: c5_env_def ex_env_def)
  ultimately show ?thesis using spec_plain_ne by (rule try_tts_failed)
qed

lemma c8_dev_try: "\<exists>s1. analyze_try c8_dev_env ex_req ex_state = (Inl tts_error, s1)"
proof -
  have "deepgram c8_dev_env = (\<lambda>m b. Inr (ex_data (Some (str ''he go''))))"
    by (simp add: c8_dev_env_def c5_env_def ex_env_def)
  then have "transcription c8_dev_env ex_req ex_state = Some (str ''he go'')"
    using ex_plain by (rule transcription_example)
  moreover have "gemini c8_dev_env = (\<lambda>p. Inr (Some spec_text))"
    by (simp add: c8_dev_env_def c5_env_def ex_env_def)
  then have "generation c8_dev_env (str ''he go'') = Some spec_text"
    by (rule generation_example)
  moreover have "gtts c8_dev_env (corrected_of (str ''he go'') spec_text) = TtsFailed (Some [1])"
    by (simp add: c8_dev_env_def c5_env_def ex_env_def)
  ultimately show ?thesis using spec_plain_ne by (rule try_tts_failed)
qed

lemma unauthorized_not_timeout:
  "err_code unauthorized_error \<noteq> Some (str ''ECONNABORTED'')
   \<and> \<not> string_includes (str ''timeout'') (err_message unauthorized_error)
   \<and> err_response_status unauthorized_error = Some 401"
  by (simp add: unauthorized_error_def str_def)

section \<open>Timers and the store\<close>

lemma store_result_simps:
  "analysisResults (store_result i r s) = (analysisResults s)(i \<mapsto> r)"
  "timers (store_result i r s) = timers s @ [(clock s + 3600000, i)]"
  "clock (store_result i r s) = clock s"
  by (simp_all add: store_result_def)

lemma analyze_speech_effect:
  assumes "analyze_speech env req s = (resp, s')"
  shows "(\<exists>r s2. s' = store_result (analysisId env) r s2
            \<and> analysisResults s2 = analysisResults s \<and> timers s2 = timers s \<and> clock s2 = clock s)
       \<or> analysisResults s' = analysisResults s \<and> timers s' = timers s \<and> clock s' = clock s"
proof -
  obtain out s1 where tr: "analyze_try env req s = (out, s1)"
    by (cases "analyze_try env req s") auto
  from analyze_try_cases [OF tr] show ?thesis
  proof (elim disjE conjE exE)
    fix t fb ct mp3 s2
    assume "out = Inr (success_response env t ct)"
      "s1 = store_result (analysisId env) (make_result env t fb ct mp3) s2"
      "analysisResults s2 = analysisResults s" "timers s2 = timers s" "clock s2 = clock s"
    with tr assms show ?thesis by (auto simp: analyze_speech_def)
  next
    fix e assume "out = Inl e" "analysisResults s1 = analysisResults s" "timers s1 = timers s"
      "clock s1 = clock s"
    with tr assms cleanup_frame [of req s1] show ?thesis by (auto simp: analyze_speech_def)
  next
    assume "out = Inr no_file_response" "analysisResults s1 = analysisResults s"
      "timers s1 = timers s" "clock s1 = clock s"
    with tr assms show ?thesis by (auto simp: analyze_speech_def)
  next
    assume "out = Inr no_speech_response" "analysisResults s1 = analysisResults s"
      "timers s1 = timers s" "clock s1 = clock s"
    with tr assms show ?thesis by (auto simp: analyze_speech_def)
  qed
qed

lemma analyze_speech_other_id:
  assumes "analysisId env \<noteq> i"
  shows "analysisResults (snd (analyze_speech env req s)) i = analysisResults s i
       \<and> timers_of i (snd (analyze_speech env req s)) = timers_of i s
       \<and> clock (snd (analyze_speech env req s)) = clock s"
proof -
  obtain resp s' where run: "analyze_speech env req s = (resp, s')"
    by (cases "analyze_speech env req s") auto
  from analyze_speech_effect [OF run] assms show ?thesis
    unfolding run by (auto simp: store_result_simps timers_of_def)
qed

lemma filter_without_nth:
  assumes "k < length xs" and "\<not> P (xs ! k)"
  shows "filter P (take k xs @ drop (Suc k) xs) = filter P xs"
proof -
  have "filter P xs = filter P (take k xs @ xs ! k # drop (Suc k) xs)"
    using id_take_nth_drop [OF assms(1)] by simp
  with assms(2) show ?thesis by simp
qed

lemma filter_single_nth:
  assumes k: "k < length xs" and p: "P (xs ! k)" and one: "filter P xs = [x]"
  shows "xs ! k = x \<and> filter P (take k xs @ drop (Suc k) xs) = []"
proof -
  have "filter P xs = filter P (take k xs) @ xs ! k # filter P (drop (Suc k) xs)"
    using id_take_nth_drop [OF k] p by (metis filter.simps(2) filter_append)
  with one have "filter P (take k xs) @ xs ! k # filter P (drop (Suc k) xs) = [x]" by simp
  then show ?thesis by (auto simp: append_eq_Cons_conv Cons_eq_append_conv)
qed

lemma fire_inv:
  assumes "expiry_inv i r due s"
  shows "expiry_inv i r due (fire k s)"
proof (cases "k < length (timers s) \<and> fst (timers s ! k) \<le> clock s")
  case False
  then have "fire k s = s" unfolding fire_def by (rule if_not_P)
  with assms show ?thesis by simp
next
  case True
  then have k: "k < length (timers s)" and due: "fst (timers s ! k) \<le> clock s" by simp_all
  let ?P = "\<lambda>p. snd p = i"
  have f: "fire k s = s\<lparr>analysisResults := (analysisResults s)(snd (timers s ! k) := None),
             timers := take k (timers s) @ drop (Suc k) (timers s)\<rparr>"
    using True by (simp add: fire_def)
  show ?thesis
  proof (cases "snd (timers s ! k) = i")
    case False
    then have "timers_of i (fire k s) = timers_of i s"
      unfolding f timers_of_def using filter_without_nth [OF k, of ?P] by simp
    moreover have "analysisResults (fire k s) i = analysisResults s i"
      unfolding f using False by simp
    moreover have "clock (fire k s) = clock s" unfolding f by simp
    ultimately show ?thesis using assms by (simp add: expiry_inv_def)
  next
    case mine: True
    from assms show ?thesis unfolding expiry_inv_def
    proof (elim disjE conjE)
      assume one: "timers_of i s = [(due, i)]" and "analysisResults s i = Some r"
      from filter_single_nth [OF k, of ?P, OF mine] one
      have "timers s ! k = (due, i)" "timers_of i (fire k s) = []"
        unfolding f timers_of_def by simp_all
      moreover have "analysisResults (fire k s) i = None" unfolding f using mine by simp
      moreover have "clock (fire k s) = clock s" unfolding f by simp
      ultimately show "timers_of i (fire k s) = [(due, i)] \<and> analysisResults (fire k s) i = Some r
          \<or> timers_of i (fire k s) = [] \<and> analysisResults (fire k s) i = None \<and> due \<le> clock (fire k s)"
        using due by simp
    next
      assume "timers_of i s = []"
      moreover have "timers s ! k \<in> set (timers_of i s)"
        unfolding timers_of_def using k mine by simp
      ultimately show "timers_of i (fire k s) = [(due, i)] \<and> analysisResults (fire k s) i = Some r
          \<or> timers_of i (fire k s) = [] \<and> analysisResults (fire k s) i = None \<and> due \<le> clock (fire k s)"
        by simp
    qed
  qed
qed

lemma step_inv:
  assumes "expiry_inv i r due s" and "event_id ev \<noteq> Some i"
  shows "expiry_inv i r due (step s ev)"
proof (cases ev)
  case (Analyze env req)
  with assms(2) have "analysisId env \<noteq> i" by simp
  from analyze_speech_other_id [OF this, of req s] assms(1) show ?thesis
    unfolding Analyze by (simp add: expiry_inv_def)
next
  case (Elapse d)
  with assms(1) show ?thesis by (auto simp: expiry_inv_def timers_of_def)
next
  case (Fire k)
  with fire_inv [OF assms(1)] show ?thesis by simp
qed

lemma run_inv:
  assumes "expiry_inv i r due s" and "\<forall>ev\<in>set evs. event_id ev \<noteq> Some i"
  shows "expiry_inv i r due (run s evs)"
  using assms unfolding run_def
proof (induction evs arbitrary: s)
  case Nil
  then show ?case by simp
next
  case (Cons ev evs)
  from Cons.prems have "expiry_inv i r due (step s ev)" by (simp add: step_inv)
  with Cons show ?case by simp
qed

lemma analyze_speech_200_stored:
  assumes "analyze_speech env req s = (Response 200 b, s1)"
  shows "\<exists>r s2. s1 = store_result (analysisId env) r s2 \<and> correctedText r \<noteq> []
           \<and> analysisResults s2 = analysisResults s \<and> timers s2 = timers s \<and> clock s2 = clock s"
proof -
  obtain out s' where tr: "analyze_try env req s = (out, s')"
    by (cases "analyze_try env req s") auto
  from analyze_try_cases [OF tr] show ?thesis
  proof (elim disjE conjE exE)
    fix t fb ct mp3 s2
    assume "out = Inr (success_response env t ct)"
      and st: "s' = store_result (analysisId env) (make_result env t fb ct mp3) s2"
      and fr: "analysisResults s2 = analysisResults s" "timers s2 = timers s" "clock s2 = clock s"
      and ne: "ct \<noteq> []"
    with tr assms have "s1 = s'" by (simp add: analyze_speech_def)
    moreover have "correctedText (make_result env t fb ct mp3) \<noteq> []"
      using ne by (simp add: make_result_def)
    ultimately show ?thesis using st fr by blast
  next
    fix e assume "out = Inl e"
    with tr assms have "error_response env e = Response 200 b"
      by (simp add: analyze_speech_def)
    with error_response_not_200 show ?thesis by blast
  next
    assume "out = Inr no_file_response"
    with tr assms show ?thesis by (simp add: analyze_speech_def no_file_response_def)
  next
    assume "out = Inr no_speech_response"
    with tr assms show ?thesis by (simp add: analyze_speech_def no_speech_response_def)
  qed
qed

lemma fire_due_deletes:
  assumes "k < length (timers s)" and "timers s ! k = (due, i)" and "due \<le> clock s"
  shows "analysisResults (fire k s) i = None"
  using assms by (simp add: fire_def)

lemma clock_fire: "clock (fire k s) = clock s"
  by (simp add: fire_def)

section \<open>Runs that end in the catch block\<close>

lemma try_empty_text:
  assumes tr: "transcription env req s = Some t"
      and ge: "generation env t = Some ai"
      and em: "corrected_of t ai = []"
  shows "\<exists>s1. analyze_try env req s = (Inl no_text_error, s1)"
proof -
  from tr obtain f s1 where f: "req_file req = Some f" and t1: "transcribe env f s = (Continue t, s1)"
    by (auto simp: transcription_def split: option.splits prod.splits outcome.splits)
  have cr: "critique env t = Continue (feedback_of ai, [])"
    using critique_generation [OF ge] em by simp
  show ?thesis
    using f t1 cr by (simp add: analyze_try_def synthesize_def gTTS_def)
qed

lemma try_index_error:
  assumes "req_file req = Some f"
      and "files s (filepath f) = Some audioBuffer"
      and "deepgram env (audioMimeType f) audioBuffer = Inr d"
      and "extract_transcript d = Inl e"
  shows "analyze_try env req s = (Inl e, s\<lparr>files := (files s)(filepath f := None)\<rparr>)"
  using assms
  by (simp add: analyze_try_def transcribe_def fs_readFile_def fs_unlink_def)

lemma thrown_stores_nothing:
  assumes "analyze_try env req s = (Inl e, s1)"
  shows "fst (analyze_speech env req s) = error_response env e
       \<and> analysisResults (snd (analyze_speech env req s)) = analysisResults s
       \<and> timers (snd (analyze_speech env req s)) = timers s"
proof -
  from analyze_try_cases [OF assms]
  have "analysisResults s1 = analysisResults s \<and> timers s1 = timers s" by auto
  with assms cleanup_frame [of req s1] show ?thesis by (simp add: analyze_speech_def)
qed

lemma plain_error_response:
  assumes "err_code e = None"
      and "\<not> string_includes (str ''timeout'') (err_message e)"
      and "err_response_status e = None"
      and "node_env env = None"
  shows "error_response env e
     = Response 500 (ErrorBody (str ''Analysis failed'')
         (Some (str ''Failed to analyze speech. Please ensure you uploaded a valid audio file and try again.''))
         None)"
  using assms by (simp add: error_response_def)

lemma no_text_error_plain:
  "err_code no_text_error = None
   \<and> \<not> string_includes (str ''timeout'') (err_message no_text_error)
   \<and> err_response_status no_text_error = None"
  by (simp add: no_text_error_def str_def)

lemma index_error_plain:
  "err_code index_error = None
   \<and> \<not> string_includes (str ''timeout'') (err_message index_error)
   \<and> err_response_status index_error = None"
  by (simp add: index_error_def type_error_def str_def)

section \<open>The claims\<close>

subsection \<open>Fallbacks of the two sections\<close>

text \<open>
  C2. For a run that reaches the store with transcript \<open>t\<close> (not empty) and generated
  text \<open>ai\<close>: if \<open>ai\<close> has no \<open>Feedback:\<close> marker, in any letter case, the stored
  feedback is the fixed text \<open>No specific feedback generated.\<close>; if \<open>ai\<close> has no
  \<open>Corrected:\<close> marker, the stored corrected text is the transcript unchanged.
\<close>

theorem fallback_sections:
  assumes "transcription env req s = Some t"
      and "generation env t = Some ai"
      and "analyze_speech env req s = (Response 200 b, s')"
  shows "\<exists>r. analysisResults s' (analysisId env) = Some r \<and> transcript r = t
           \<and> (\<not> contains_ci (str ''Feedback:'') ai \<longrightarrow> feedback r = str ''No specific feedback generated.'')
           \<and> (\<not> contains_ci (str ''Corrected:'') ai \<longrightarrow> correctedText r = t)"
proof -
  from analyze_speech_200 [OF assms] obtain mp3 s2 where
    s': "s' = store_result (analysisId env) (make_result env t (feedback_of ai) (corrected_of t ai) mp3) s2"
    by blast
  show ?thesis
    unfolding s' stored_fields
    by (simp add: make_result_def feedback_of_def corrected_of_def contains_ci_def
          feedback_capture_def corrected_capture_def)
qed

theorem fallback_sections_witness:
  "\<exists>r. analysisResults (snd (analyze_speech (ex_env (Inr (Some (str ''he go''))) (Inr (Some (str ''Looks fine.''))) (TtsSaved [7, 7])) ex_req ex_state))
          (analysisId (ex_env (Inr (Some (str ''he go''))) (Inr (Some (str ''Looks fine.''))) (TtsSaved [7, 7]))) = Some r
       \<and> transcript r = str ''he go''
       \<and> feedback r = str ''No specific feedback generated.''
       \<and> correctedText r = str ''he go''"
proof -
  let ?env = "ex_env (Inr (Some (str ''he go''))) (Inr (Some (str ''Looks fine.''))) (TtsSaved [7, 7])"
  have nf: "\<not> contains_ci (str ''Feedback:'') (str ''Looks fine.'')"
    by (simp add: contains_ci_def str_def canonicalize_def)
  have nc: "\<not> contains_ci (str ''Corrected:'') (str ''Looks fine.'')"
    by (simp add: contains_ci_def str_def canonicalize_def)
  have "corrected_of (str ''he go'') (str ''Looks fine.'') \<noteq> []"
    unfolding corrected_of_no_marker [OF nc] by (simp add: str_def)
  then obtain b s' where run: "analyze_speech ?env ex_req ex_state = (Response 200 b, s')"
    using ex_run_200 [OF ex_plain] by blast
  from fallback_sections [OF ex_transcription [OF ex_plain] ex_generation run] nf nc run
  show ?thesis by auto
qed

subsection \<open>The two sections when both markers are there\<close>

text \<open>
  C1, as stated: with both markers in the generated text, the stored feedback is the
  trimmed text between the \<open>Feedback:\<close> marker and the next \<open>Corrected:\<close> marker.
  It fails for a \<open>Corrected:\<close> in the middle of a line: for the text
  \<open>Feedback: good Corrected: fine\<close> the stored feedback is
  \<open>good Corrected: fine\<close>, not \<open>good\<close>.
\<close>

theorem sections_counterexample:
  "contains_ci (str ''Feedback:'') c1_text
   \<and> contains_ci (str ''Corrected:'') c1_text
   \<and> transcription c1_env ex_req ex_state = Some (str ''he go'')
   \<and> generation c1_env (str ''he go'') = Some c1_text
   \<and> fst (analyze_speech c1_env ex_req ex_state) = success_response c1_env (str ''he go'') (str ''fine'')
   \<and> map_option feedback (analysisResults (snd (analyze_speech c1_env ex_req ex_state)) (analysisId c1_env))
       = Some (str ''good Corrected: fine'')
   \<and> spec_feedback c1_text = Some (str ''good'')
   \<and> map_option feedback (analysisResults (snd (analyze_speech c1_env ex_req ex_state)) (analysisId c1_env))
       \<noteq> spec_feedback c1_text"
proof -
  have 1: "contains_ci (str ''Feedback:'') c1_text"
    by (simp add: contains_ci_def c1_text_def string_eval)
  have 2: "contains_ci (str ''Corrected:'') c1_text"
    by (simp add: contains_ci_def c1_text_def string_eval)
  have 3: "transcription c1_env ex_req ex_state = Some (str ''he go'')"
    unfolding c1_env_def by (rule ex_transcription [OF ex_plain])
  have 4: "generation c1_env (str ''he go'') = Some c1_text"
    unfolding c1_env_def by (rule ex_generation)
  have c: "corrected_of (str ''he go'') c1_text = str ''fine''"
    by (simp add: c1_text_def corrected_of_def corrected_capture_def string_eval)
  have 5: "fst (analyze_speech c1_env ex_req ex_state) = success_response c1_env (str ''he go'') (str ''fine'')"
    using ex_stored [OF ex_plain c1_ne, of "[7, 7]"] by (simp add: c1_env_def c)
  have 6: "map_option feedback (analysisResults (snd (analyze_speech c1_env ex_req ex_state)) (analysisId c1_env))
       = Some (str ''good Corrected: fine'')"
    using ex_stored [OF ex_plain c1_ne, of "[7, 7]"]
    by (simp add: c1_env_def make_result_def c1_feedback_of)
  have 7: "str ''good Corrected: fine'' \<noteq> str ''good''"
    by (simp add: str_def)
  have 8: "map_option feedback (analysisResults (snd (analyze_speech c1_env ex_req ex_state)) (analysisId c1_env))
       \<noteq> spec_feedback c1_text"
    unfolding 6 c1_spec_feedback using 7 by simp
  show ?thesis
    using 1 2 3 4 5 6 8 c1_spec_feedback by blast
qed

text \<open>
  C1, amended. For a run that reaches the store with transcript \<open>t\<close> and generated
  text \<open>ai\<close> that has both markers: the stored feedback is the trimmed text that starts
  after the leftmost \<open>Feedback:\<close> and the white space following it and stops before
  the first newline directly followed by \<open>Corrected:\<close> (or at the end of the text);
  the stored corrected text is the trimmed text after the leftmost \<open>Corrected:\<close>.
\<close>

theorem sections_captured:
  assumes "transcription env req s = Some t"
      and "generation env t = Some ai"
      and "analyze_speech env req s = (Response 200 b, s')"
      and fb: "find_ci (str ''Feedback:'') ai = Some after_feedback"
      and co: "find_ci (str ''Corrected:'') ai = Some after_corrected"
  shows "\<exists>r. analysisResults s' (analysisId env) = Some r \<and> transcript r = t
           \<and> feedback r =
               trim (until_marker (str ''\<newline>Corrected:'') (dropWhile isWhiteSpace after_feedback))
           \<and> correctedText r = trim after_corrected"
proof -
  from analyze_speech_200 [OF assms(1-3)] obtain mp3 s2 where
    s': "s' = store_result (analysisId env) (make_result env t (feedback_of ai) (corrected_of t ai) mp3) s2"
    by blast
  show ?thesis
    unfolding s' stored_fields
    by (simp add: make_result_def feedback_of_def corrected_of_def feedback_capture_def
          corrected_capture_def fb co trim_dropWhile)
qed

text \<open>The example of the specification.\<close>

theorem sections_captured_witness:
  "\<exists>r. analysisResults (snd (analyze_speech spec_env ex_req ex_state)) (analysisId spec_env) = Some r
       \<and> transcript r = str ''he go to school yesterday''
       \<and> feedback r = str ''Watch subject-verb agreement and past tense.''
       \<and> correctedText r = str ''He went to school yesterday.''"
proof -
  have tr: "transcription spec_env ex_req ex_state = Some (str ''he go to school yesterday'')"
    unfolding spec_env_def by (rule ex_transcription [OF ex_long])
  have ge: "generation spec_env (str ''he go to school yesterday'') = Some spec_text"
    unfolding spec_env_def by (rule ex_generation)
  obtain b s' where run: "analyze_speech spec_env ex_req ex_state = (Response 200 b, s')"
    unfolding spec_env_def using ex_run_200 [OF ex_long spec_ne] by blast
  have fb: "find_ci (str ''Feedback:'') spec_text
      = Some (str '' Watch subject-verb agreement and past tense.\<newline>Corrected: He went to school yesterday.'')"
    by (simp add: spec_text_def string_eval)
  have co: "find_ci (str ''Corrected:'') spec_text = Some (str '' He went to school yesterday.'')"
    by (simp add: spec_text_def string_eval)
  have e1: "trim (until_marker (str ''\<newline>Corrected:'') (dropWhile isWhiteSpace
        (str '' Watch subject-verb agreement and past tense.\<newline>Corrected: He went to school yesterday.'')))
      = str ''Watch subject-verb agreement and past tense.''"
    by (simp add: string_eval)
  have e2: "trim (str '' He went to school yesterday.'') = str ''He went to school yesterday.''"
    by (simp add: string_eval)
  from sections_captured [OF tr ge run fb co] show ?thesis
    unfolding e1 e2 using run by simp
qed

subsection \<open>Emptiness of the corrected text\<close>

text \<open>
  The fallback to the transcript is for a missing marker only: the corrected text that
  the handler computes is empty exactly when only white space (or nothing) follows the
  leftmost \<open>Corrected:\<close>.
\<close>

lemma corrected_of_empty_iff:
  assumes "t \<noteq> []"
  shows "corrected_of t ai = [] \<longleftrightarrow>
           (\<exists>rest. find_ci (str ''Corrected:'') ai = Some rest \<and> (\<forall>c\<in>set rest. isWhiteSpace c))"
  using assms
  by (cases "find_ci (str ''Corrected:'') ai")
     (simp_all add: corrected_of_def corrected_capture_def trim_dropWhile trim_empty_iff)

text \<open>
  The handler passes such a text on without a guard, and the constructor of gtts
  refuses it: the run ends in the catch block with status 500 and stores nothing.
\<close>

lemma empty_corrected_text_rejected:
  "corrected_of (str ''he go'') (str ''Corrected:  '') = []
   \<and> fst (analyze_speech c3_env ex_req ex_state)
       = Response 500 (ErrorBody (str ''Analysis failed'')
           (Some (str ''Failed to analyze speech. Please ensure you uploaded a valid audio file and try again.''))
           None)
   \<and> analysisResults (snd (analyze_speech c3_env ex_req ex_state)) = analysisResults ex_state"
proof -
  have c: "corrected_of (str ''he go'') (str ''Corrected:  '') = []"
    by (simp add: corrected_of_def corrected_capture_def string_eval)
  have tr: "transcription c3_env ex_req ex_state = Some (str ''he go'')"
    unfolding c3_env_def by (rule ex_transcription [OF ex_plain])
  have ge: "generation c3_env (str ''he go'') = Some (str ''Corrected:  '')"
    unfolding c3_env_def by (rule ex_generation)
  obtain s1 where thrown: "analyze_try c3_env ex_req ex_state = (Inl no_text_error, s1)"
    using try_empty_text [OF tr ge c] by blast
  have "node_env c3_env = None" by (simp add: c3_env_def ex_env_def)
  with no_text_error_plain have "error_response c3_env no_text_error
     = Response 500 (ErrorBody (str ''Analysis failed'')
         (Some (str ''Failed to analyze speech. Please ensure you uploaded a valid audio file and try again.''))
         None)"
    by (simp add: plain_error_response)
  with thrown_stores_nothing [OF thrown] c show ?thesis by simp
qed

text \<open>
  C3. Every run that stores a record answers 200; the record it stores under its id
  has a corrected text that is not empty, and the run changes no other entry of
  \<open>analysisResults\<close>.
\<close>

theorem corrected_text_nonempty:
  assumes "analyze_speech env req s = (Response 200 b, s')"
  shows "\<exists>r. analysisResults s' (analysisId env) = Some r \<and> correctedText r \<noteq> []
           \<and> (\<forall>i. i \<noteq> analysisId env \<longrightarrow> analysisResults s' i = analysisResults s i)"
proof -
  from analyze_speech_200_stored [OF assms] obtain r s2 where
    s': "s' = store_result (analysisId env) r s2" and ne: "correctedText r \<noteq> []"
    and fr: "analysisResults s2 = analysisResults s"
    by blast
  show ?thesis
    unfolding s' using ne fr by (simp add: store_result_simps)
qed

theorem corrected_text_nonempty_witness:
  "\<exists>r. analysisResults (snd (analyze_speech spec_env ex_req ex_state)) (analysisId spec_env) = Some r
       \<and> correctedText r = str ''He went to school yesterday.''
       \<and> correctedText r \<noteq> []"
proof -
  obtain b s' where run: "analyze_speech spec_env ex_req ex_state = (Response 200 b, s')"
    unfolding spec_env_def using ex_run_200 [OF ex_long spec_ne] by blast
  from corrected_text_nonempty [OF run] obtain r where
    r: "analysisResults s' (analysisId spec_env) = Some r" "correctedText r \<noteq> []"
    by blast
  from r(1) run ex_stored [OF ex_long spec_ne, of "[7, 7]", folded spec_env_def]
  have "correctedText r = str ''He went to school yesterday.''"
    by (auto simp: make_result_def spec_corrected_of)
  with r run show ?thesis by auto
qed

subsection \<open>A marker in the middle of a line\<close>

text \<open>
  C10. The feedback capture starts after the leftmost \<open>Feedback:\<close> and the white space
  following it, and it stops only at the end of the text or where a newline is directly
  followed by \<open>Corrected:\<close>. An occurrence of \<open>Corrected:\<close> in the captured region
  that is not directly preceded by a newline, with no newline-and-marker pair before it,
  does not stop the capture: it is part of the capture and of the stored feedback,
  letter for letter; the corrected-text pattern still finds a \<open>Corrected:\<close> marker,
  and the stored corrected text is the trimmed text after the leftmost one.
\<close>

theorem midline_marker_in_feedback:
  assumes tr: "transcription env req s = Some t"
      and ge: "generation env t = Some ai"
      and ok: "analyze_speech env req s = (Response 200 b, s')"
      and fb: "find_ci (str ''Feedback:'') ai = Some rest"
  shows "\<exists>r cap tail.
           analysisResults s' (analysisId env) = Some r \<and> feedback r = trim cap
         \<and> dropWhile isWhiteSpace rest = cap @ tail
         \<and> (tail = [] \<or>
              (\<exists>m z. tail = 0x0A # m @ z \<and> map canonicalize m = map canonicalize (str ''Corrected:'')))
         \<and> (\<forall>a m z.
               dropWhile isWhiteSpace rest = a @ m @ z
               \<and> map canonicalize m = map canonicalize (str ''Corrected:'')
               \<and> (a = [] \<or> last a \<noteq> 0x0A)
               \<and> (\<forall>k. Suc k < length a \<longrightarrow>
                      \<not> at_marker (str ''\<newline>Corrected:'') (drop k (a @ m @ z)))
               \<longrightarrow> (\<exists>w v. cap = a @ m @ w \<and> feedback r = a @ m @ v)
                   \<and> (\<exists>after. find_ci (str ''Corrected:'') ai = Some after
                          \<and> correctedText r = trim after))"
proof -
  let ?p = "str ''\<newline>Corrected:''"
  let ?body = "dropWhile isWhiteSpace rest"
  let ?cap = "until_marker ?p ?body"
  from analyze_speech_200 [OF tr ge ok] obtain mp3 s2 where
    s': "s' = store_result (analysisId env) (make_result env t (feedback_of ai) (corrected_of t ai) mp3) s2"
    by blast
  let ?r = "make_result env t (feedback_of ai) (corrected_of t ai) mp3"
  have st: "analysisResults s' (analysisId env) = Some ?r"
    unfolding s' by (rule stored_fields)
  have fr: "feedback ?r = trim ?cap"
    by (simp add: make_result_def feedback_of_def feedback_capture_def fb)
  from until_marker_decomp [of ?body ?p] obtain tail where
    tail: "?body = ?cap @ tail" "tail = [] \<or> at_marker ?p tail"
    by blast
  have stop: "tail = [] \<or>
      (\<exists>m z. tail = 0x0A # m @ z \<and> map canonicalize m = map canonicalize (str ''Corrected:''))"
    using tail(2) by (simp add: at_newline_marker_iff)
  have mid: "(\<exists>w v. ?cap = a @ m @ w \<and> feedback ?r = a @ m @ v)
           \<and> (\<exists>after. find_ci (str ''Corrected:'') ai = Some after \<and> correctedText ?r = trim after)"
    if body: "?body = a @ m @ z"
      and m: "map canonicalize m = map canonicalize (str ''Corrected:'')"
      and h1: "a = [] \<or> last a \<noteq> 0x0A"
      and h2: "\<forall>k. Suc k < length a \<longrightarrow> \<not> at_marker ?p (drop k (a @ m @ z))"
    for a m z
  proof -
    have cap: "?cap = a @ m @ until_marker ?p z"
      unfolding body by (rule until_marker_past_occurrence [OF m h1 h2])
    have ne: "m \<noteq> []" and lm: "\<not> isWhiteSpace (last m)"
      using marker_ends [OF m] by simp_all
    have "a @ m @ z \<noteq> []" using ne by simp
    then have "\<not> isWhiteSpace (hd (a @ m @ z))"
      using hd_dropWhile [of isWhiteSpace rest] body by simp
    moreover have "hd (a @ m @ z) = hd (a @ m)" using ne by (cases a; cases m) auto
    ultimately have hd: "\<not> isWhiteSpace (hd (a @ m))" by simp
    from trim_keeps_occurrence [OF hd ne lm, of "until_marker ?p z"] obtain v where
      "trim (a @ m @ until_marker ?p z) = a @ m @ v" by blast
    then have 1: "\<exists>w v. ?cap = a @ m @ w \<and> feedback ?r = a @ m @ v"
      unfolding fr cap by blast
    from find_ci_Some [OF fb] obtain pre mf where ai: "ai = pre @ mf @ rest" by blast
    have "rest = takeWhile isWhiteSpace rest @ a @ m @ z"
      using takeWhile_dropWhile_id [of isWhiteSpace rest] body by simp
    then have "ai = (pre @ mf @ takeWhile isWhiteSpace rest @ a) @ m @ z"
      using ai by simp
    then have "find_ci (str ''Corrected:'') ai \<noteq> None"
      using find_ci_append [OF m] by metis
    then obtain after where af: "find_ci (str ''Corrected:'') ai = Some after" by blast
    then have "correctedText ?r = trim after"
      by (simp add: make_result_def corrected_of_def corrected_capture_def trim_dropWhile)
    with af 1 show ?thesis by blast
  qed
  show ?thesis
    using st fr tail(1) stop mid by blast
qed

theorem midline_marker_in_feedback_witness:
  "\<exists>r v. analysisResults (snd (analyze_speech c1_env ex_req ex_state)) (analysisId c1_env) = Some r
       \<and> feedback r = str ''good '' @ str ''Corrected:'' @ v
       \<and> correctedText r = str ''fine''"
proof -
  have tr: "transcription c1_env ex_req ex_state = Some (str ''he go'')"
    unfolding c1_env_def by (rule ex_transcription [OF ex_plain])
  have ge: "generation c1_env (str ''he go'') = Some c1_text"
    unfolding c1_env_def by (rule ex_generation)
  obtain b s' where run: "analyze_speech c1_env ex_req ex_state = (Response 200 b, s')"
    unfolding c1_env_def using ex_run_200 [OF ex_plain c1_ne] by blast
  have fb: "find_ci (str ''Feedback:'') c1_text = Some (str '' good Corrected: fine'')"
    by (simp add: c1_text_def string_eval)
  have co: "find_ci (str ''Corrected:'') c1_text = Some (str '' fine'')"
    by (simp add: c1_text_def string_eval)
  have body: "dropWhile isWhiteSpace (str '' good Corrected: fine'')
      = str ''good '' @ str ''Corrected:'' @ str '' fine''"
    by (simp add: string_eval)
  have h1: "str ''good '' = [] \<or> last (str ''good '') \<noteq> 0x0A"
    by (simp add: str_def)
  have "0x0A \<notin> set (str ''good '')" by (simp add: str_def)
  then have h2: "\<forall>k. Suc k < length (str ''good '') \<longrightarrow>
      \<not> at_marker (str ''\<newline>Corrected:'') (drop k (str ''good '' @ str ''Corrected:'' @ str '' fine''))"
    using no_newline_no_marker by (metis Suc_lessD)
  have tf: "trim (str '' fine'') = str ''fine''"
    by (simp add: string_eval)
  from midline_marker_in_feedback [OF tr ge run fb] obtain r cap tail where
    r: "analysisResults s' (analysisId c1_env) = Some r"
    and all: "\<forall>a m z.
               dropWhile isWhiteSpace (str '' good Corrected: fine'') = a @ m @ z
               \<and> map canonicalize m = map canonicalize (str ''Corrected:'')
               \<and> (a = [] \<or> last a \<noteq> 0x0A)
               \<and> (\<forall>k. Suc k < length a \<longrightarrow>
                      \<not> at_marker (str ''\<newline>Corrected:'') (drop k (a @ m @ z)))
               \<longrightarrow> (\<exists>w v. cap = a @ m @ w \<and> feedback r = a @ m @ v)
                   \<and> (\<exists>after. find_ci (str ''Corrected:'') c1_text = Some after
                          \<and> correctedText r = trim after)"
    by blast
  from all [rule_format, of "str ''good ''" "str ''Corrected:''" "str '' fine''"] body h1 h2
  obtain v after where "feedback r = str ''good '' @ str ''Corrected:'' @ v"
    "find_ci (str ''Corrected:'') c1_text = Some after" "correctedText r = trim after"
    by blast
  with co tf r run show ?thesis by auto
qed

subsection \<open>A failed run stores nothing\<close>

text \<open>
  C4. A run that does not end with status 200 (a stage threw, which ends with 408 or
  500 by \<open>thrown_error_status\<close>, or the run was answered with 400) leaves
  \<open>analysisResults\<close> as it was before the run, and schedules no timer: no record, and
  no part of one, is stored.
\<close>

theorem failed_run_stores_nothing:
  assumes run: "analyze_speech env req s = (Response st b, s')"
      and failed: "st \<noteq> 200"
  shows "analysisResults s' = analysisResults s \<and> timers s' = timers s"
proof -
  obtain out s1 where tr: "analyze_try env req s = (out, s1)"
    by (cases "analyze_try env req s") auto
  from analyze_try_cases [OF tr] show ?thesis
  proof (elim disjE conjE exE)
    fix t fb ct mp3 s2
    assume "out = Inr (success_response env t ct)"
    with tr run have "Response st b = success_response env t ct"
      by (simp add: analyze_speech_def)
    with failed show ?thesis by (simp add: success_response_def)
  next
    fix e assume "out = Inl e" and fr: "analysisResults s1 = analysisResults s" "timers s1 = timers s"
    with tr run have "s' = cleanup req s1" by (simp add: analyze_speech_def)
    with fr cleanup_frame [of req s1] show ?thesis by simp
  next
    assume "out = Inr no_file_response" and fr: "analysisResults s1 = analysisResults s" "timers s1 = timers s"
    with tr run have "s' = s1" by (simp add: analyze_speech_def)
    with fr show ?thesis by simp
  next
    assume "out = Inr no_speech_response" and fr: "analysisResults s1 = analysisResults s" "timers s1 = timers s"
    with tr run have "s' = s1" by (simp add: analyze_speech_def)
    with fr show ?thesis by simp
  qed
qed

theorem failed_run_stores_nothing_witness:
  "fst (analyze_speech c4_env ex_req ex_state)
     = Response 408 (ErrorBody (str ''Request timeout'')
         (Some (str ''The analysis took too long. Please try with a shorter audio file.'')) None)
   \<and> analysisResults (snd (analyze_speech c4_env ex_req ex_state)) = analysisResults ex_state
   \<and> timers (snd (analyze_speech c4_env ex_req ex_state)) = timers ex_state"
proof -
  have run: "analyze_speech c4_env ex_req ex_state
      = (Response 408 (ErrorBody (str ''Request timeout'')
           (Some (str ''The analysis took too long. Please try with a shorter audio file.'')) None),
         cleanup ex_req ex_state)"
    by (simp add: analyze_speech_def c4_env_def ex_try_deepgram_error error_response_def
          timeout_error_def)
  have "(408::nat) \<noteq> 200" by simp
  from failed_run_stores_nothing [OF run this] run show ?thesis by simp
qed

subsection \<open>The temp file after a failed save\<close>

text \<open>
  C5 says that the synthesized-audio file in the temp directory is deleted on every
  path, also when the save fails. The handler unlinks it only after a successful save
  and read (\<open>synthesize_Continue\<close>); the catch block unlinks the upload only. In the
  run below the save reports an error after the file was created: the run ends with
  status 500 and the file, absent before the run, is still there after it.
\<close>

theorem temp_file_left_after_failed_save:
  "fst (analyze_speech c5_env ex_req ex_state)
     = Response 500 (ErrorBody (str ''Analysis failed'')
         (Some (str ''Failed to analyze speech. Please ensure you uploaded a valid audio file and try again.''))
         None)
   \<and> files ex_state (correctedAudioPath c5_env) = None
   \<and> files (snd (analyze_speech c5_env ex_req ex_state)) (correctedAudioPath c5_env) = Some [1]"
proof -
  have t1: "transcribe c5_env ex_upload ex_state
      = (Continue (str ''he go''), ex_state\<lparr>files := (files ex_state)(str ''uploads/ab12'' := None)\<rparr>)"
    using ex_plain
    by (auto simp: c5_env_def ex_env_def ex_state_def ex_upload_def transcribe_def
          fs_readFile_def fs_unlink_def ex_data_def audioMimeType_def)
  have ge: "generation c5_env (str ''he go'') = Some spec_text"
    unfolding c5_env_def by (rule ex_generation)
  have cr: "critique c5_env (str ''he go'')
      = Continue (feedback_of spec_text, corrected_of (str ''he go'') spec_text)"
    using critique_generation [OF ge] .
  have tf: "gtts c5_env ct = TtsFailed (Some [1])" for ct
    by (simp add: c5_env_def ex_env_def)
  have thrown: "analyze_try c5_env ex_req ex_state
      = (Inl tts_error,
         ex_state\<lparr>files := ((files ex_state)(str ''uploads/ab12'' := None))
                                (correctedAudioPath c5_env \<mapsto> [1])\<rparr>)"
    using spec_plain_ne by (simp add: analyze_try_def ex_req_def t1 cr synthesize_def gTTS_def tf)
  have ne: "node_env c5_env = None" by (simp add: c5_env_def ex_env_def)
  have resp: "error_response c5_env tts_error
     = Response 500 (ErrorBody (str ''Analysis failed'')
         (Some (str ''Failed to analyze speech. Please ensure you uploaded a valid audio file and try again.''))
         None)"
    using tts_error_not_timeout by (simp add: error_response_def ne)
  have 1: "fst (analyze_speech c5_env ex_req ex_state) = error_response c5_env tts_error"
    by (simp add: analyze_speech_def thrown)
  have 2: "files ex_state (correctedAudioPath c5_env) = None"
    using c5_path by (simp add: ex_state_def)
  have "snd (analyze_speech c5_env ex_req ex_state)
      = cleanup ex_req (ex_state\<lparr>files := ((files ex_state)(str ''uploads/ab12'' := None))
                                (correctedAudioPath c5_env \<mapsto> [1])\<rparr>)"
    by (simp add: analyze_speech_def thrown)
  then have 3: "files (snd (analyze_speech c5_env ex_req ex_state)) (correctedAudioPath c5_env) = Some [1]"
    using c5_path
    by (simp add: cleanup_def ex_req_def ex_upload_def fs_unlink_def ex_state_def)
  show ?thesis using 1 2 3 resp by simp
qed

subsection \<open>No speech detected\<close>

text \<open>
  When the upload is read and transcribed and the chain of line 113 gives undefined,
  the empty string or white space only, the run answers 400 with the error code
  \<open>No speech detected\<close>, and nothing is stored or scheduled.
\<close>

lemma no_speech_detected:
  assumes upl: "req_file req = Some f"
      and read: "files s (filepath f) = Some audioBuffer"
      and dg: "deepgram env (audioMimeType f) audioBuffer = Inr d"
      and ex: "extract_transcript d = Inr tr"
      and silent: "tr = None \<or> (\<exists>t. tr = Some t \<and> (\<forall>c\<in>set t. isWhiteSpace c))"
  shows "\<exists>s'. analyze_speech env req s =
           (Response 400 (ErrorBody (str ''No speech detected'')
              (Some (str ''Could not detect any speech in the audio file. Please try again with a clearer recording.''))
              None), s')
         \<and> analysisResults s' = analysisResults s \<and> timers s' = timers s"
proof -
  have "transcribe env f s = (Return no_speech_response, s\<lparr>files := (files s)(filepath f := None)\<rparr>)"
    using read dg ex silent
    by (auto simp: transcribe_def fs_readFile_def fs_unlink_def trim_empty_iff)
  then have "analyze_speech env req s = (no_speech_response, s\<lparr>files := (files s)(filepath f := None)\<rparr>)"
    using upl by (simp add: analyze_speech_def analyze_try_def)
  then show ?thesis by (simp add: no_speech_response_def)
qed

text \<open>
  C6 says that every upload whose transcription result is absent is answered with 400
  \<open>No speech detected\<close>. A body without \<open>results\<close> is (third line below). But for a
  body that has \<open>results\<close> and no \<open>channels\<close> array, or whose first channel has no
  \<open>alternatives\<close> array, the plain index read \<open>channels[0]\<close> or \<open>alternatives[0]\<close> of
  line 113 throws a TypeError, and the run ends in the catch block with status 500
  \<open>Analysis failed\<close>. The chain of line 149 reads its arrays with \<open>?.[0]\<close>.
\<close>

theorem missing_array_answered_500:
  "fst (analyze_speech c6_no_channels_env ex_req ex_state)
     = Response 500 (ErrorBody (str ''Analysis failed'')
         (Some (str ''Failed to analyze speech. Please ensure you uploaded a valid audio file and try again.''))
         None)
   \<and> fst (analyze_speech c6_no_alternatives_env ex_req ex_state)
     = Response 500 (ErrorBody (str ''Analysis failed'')
         (Some (str ''Failed to analyze speech. Please ensure you uploaded a valid audio file and try again.''))
         None)
   \<and> fst (analyze_speech c6_no_results_env ex_req ex_state)
     = Response 400 (ErrorBody (str ''No speech detected'')
         (Some (str ''Could not detect any speech in the audio file. Please try again with a clearer recording.''))
         None)"
proof -
  have upl: "req_file ex_req = Some ex_upload" by (simp add: ex_req_def)
  have read: "files ex_state (filepath ex_upload) = Some [1, 2, 3, 4]"
    by (simp add: ex_state_def ex_upload_def)
  have d1: "deepgram c6_no_channels_env (audioMimeType ex_upload) [1, 2, 3, 4]
      = Inr (Some (Data (Some (Results None))))"
    by (simp add: c6_no_channels_env_def)
  have e1: "extract_transcript (Some (Data (Some (Results None)))) = Inl index_error" by simp
  have n1: "node_env c6_no_channels_env = None"
    by (simp add: c6_no_channels_env_def c6_env_def ex_env_def)
  have 1: "fst (analyze_speech c6_no_channels_env ex_req ex_state)
     = Response 500 (ErrorBody (str ''Analysis failed'')
         (Some (str ''Failed to analyze speech. Please ensure you uploaded a valid audio file and try again.''))
         None)"
    using thrown_stores_nothing [OF try_index_error [OF upl read d1 e1]] index_error_plain n1
    by (simp add: plain_error_response)
  have d2: "deepgram c6_no_alternatives_env (audioMimeType ex_upload) [1, 2, 3, 4]
      = Inr (Some (Data (Some (Results (Some [Channel None])))))"
    by (simp add: c6_no_alternatives_env_def)
  have e2: "extract_transcript (Some (Data (Some (Results (Some [Channel None]))))) = Inl index_error"
    by simp
  have n2: "node_env c6_no_alternatives_env = None"
    by (simp add: c6_no_alternatives_env_def c6_env_def ex_env_def)
  have 2: "fst (analyze_speech c6_no_alternatives_env ex_req ex_state)
     = Response 500 (ErrorBody (str ''Analysis failed'')
         (Some (str ''Failed to analyze speech. Please ensure you uploaded a valid audio file and try again.''))
         None)"
    using thrown_stores_nothing [OF try_index_error [OF upl read d2 e2]] index_error_plain n2
    by (simp add: plain_error_response)
  have d3: "deepgram c6_no_results_env (audioMimeType ex_upload) [1, 2, 3, 4] = Inr (Some (Data None))"
    by (simp add: c6_no_results_env_def)
  have e3: "extract_transcript (Some (Data None)) = Inr None" by simp
  have 3: "fst (analyze_speech c6_no_results_env ex_req ex_state)
     = Response 400 (ErrorBody (str ''No speech detected'')
         (Some (str ''Could not detect any speech in the audio file. Please try again with a clearer recording.''))
         None)"
    using no_speech_detected [OF upl read d3 e3] by auto
  show ?thesis using 1 2 3 by blast
qed

subsection \<open>Classification of errors\<close>

text \<open>
  C8. When the try block throws an error \<open>e\<close>: if \<open>e\<close> is a timeout (code
  \<open>ECONNABORTED\<close>, or \<open>timeout\<close> in the message) the status is 408; otherwise, if
  \<open>e\<close> carries a response with status 401, the status is 500 with a fixed body that
  has no details; otherwise the status is 500 with a fixed error code and message, and
  the details are the message of \<open>e\<close> exactly when \<open>NODE_ENV\<close> is \<open>development\<close>;
  in particular there are no details when it is \<open>production\<close>.
\<close>

theorem error_classification:
  assumes thrown: "analyze_try env req s = (Inl e, s1)"
  shows "\<exists>st b. fst (analyze_speech env req s) = Response st b
     \<and> (err_code e = Some (str ''ECONNABORTED'') \<or> string_includes (str ''timeout'') (err_message e)
          \<longrightarrow> st = 408
              \<and> b = ErrorBody (str ''Request timeout'')
                    (Some (str ''The analysis took too long. Please try with a shorter audio file.'')) None)
     \<and> (\<not> (err_code e = Some (str ''ECONNABORTED'') \<or> string_includes (str ''timeout'') (err_message e))
          \<and> err_response_status e = Some 401
          \<longrightarrow> st = 500
              \<and> b = ErrorBody (str ''API authentication failed'')
                    (Some (str ''There was an issue with the speech analysis service. Please try again later.''))
                    None)
     \<and> (\<not> (err_code e = Some (str ''ECONNABORTED'') \<or> string_includes (str ''timeout'') (err_message e))
          \<and> err_response_status e \<noteq> Some 401
          \<longrightarrow> st = 500
              \<and> b = ErrorBody (str ''Analysis failed'')
                    (Some (str ''Failed to analyze speech. Please ensure you uploaded a valid audio file and try again.''))
                    (if node_env env = Some (str ''development'') then Some (err_message e) else None))
     \<and> (node_env env = Some (str ''production'') \<longrightarrow> (\<exists>c m. b = ErrorBody c m None))"
proof -
  have run: "fst (analyze_speech env req s) = error_response env e"
    using thrown by (simp add: analyze_speech_def)
  have "str ''production'' \<noteq> str ''development''" by (simp add: str_def)
  then show ?thesis
    unfolding run error_response_def by auto
qed

theorem error_classification_witness:
  "fst (analyze_speech c4_env ex_req ex_state)
     = Response 408 (ErrorBody (str ''Request timeout'')
         (Some (str ''The analysis took too long. Please try with a shorter audio file.'')) None)
   \<and> fst (analyze_speech c8_auth_env ex_req ex_state)
     = Response 500 (ErrorBody (str ''API authentication failed'')
         (Some (str ''There was an issue with the speech analysis service. Please try again later.''))
         None)
   \<and> fst (analyze_speech c5_env ex_req ex_state)
     = Response 500 (ErrorBody (str ''Analysis failed'')
         (Some (str ''Failed to analyze speech. Please ensure you uploaded a valid audio file and try again.''))
         None)
   \<and> fst (analyze_speech c8_dev_env ex_req ex_state)
     = Response 500 (ErrorBody (str ''Analysis failed'')
         (Some (str ''Failed to analyze speech. Please ensure you uploaded a valid audio file and try again.''))
         (Some (str ''Failed to generate corrected audio'')))"
proof -
  have t1: "analyze_try c4_env ex_req ex_state = (Inl timeout_error, ex_state)"
    unfolding c4_env_def by (rule ex_try_deepgram_error)
  have c1: "err_code timeout_error = Some (str ''ECONNABORTED'')"
    by (simp add: timeout_error_def)
  have 1: "fst (analyze_speech c4_env ex_req ex_state)
     = Response 408 (ErrorBody (str ''Request timeout'')
         (Some (str ''The analysis took too long. Please try with a shorter audio file.'')) None)"
    using error_classification [OF t1] c1 by auto
  have t2: "analyze_try c8_auth_env ex_req ex_state = (Inl unauthorized_error, ex_state)"
    unfolding c8_auth_env_def by (rule ex_try_deepgram_error)
  have 2: "fst (analyze_speech c8_auth_env ex_req ex_state)
     = Response 500 (ErrorBody (str ''API authentication failed'')
         (Some (str ''There was an issue with the speech analysis service. Please try again later.''))
         None)"
    using error_classification [OF t2] unauthorized_not_timeout by auto
  obtain s3 where t3: "analyze_try c5_env ex_req ex_state = (Inl tts_error, s3)"
    using c5_try by blast
  have n3: "node_env c5_env \<noteq> Some (str ''development'')"
    by (simp add: c5_env_def ex_env_def)
  have 3: "fst (analyze_speech c5_env ex_req ex_state)
     = Response 500 (ErrorBody (str ''Analysis failed'')
         (Some (str ''Failed to analyze speech. Please ensure you uploaded a valid audio file and try again.''))
         None)"
    using error_classification [OF t3] tts_error_not_timeout n3 by auto
  obtain s4 where t4: "analyze_try c8_dev_env ex_req ex_state = (Inl tts_error, s4)"
    using c8_dev_try by blast
  have n4: "node_env c8_dev_env = Some (str ''development'')"
    by (simp add: c8_dev_env_def)
  have m4: "err_message tts_error = str ''Failed to generate corrected audio''"
    by (simp add: tts_error_def)
  have 4: "fst (analyze_speech c8_dev_env ex_req ex_state)
     = Response 500 (ErrorBody (str ''Analysis failed'')
         (Some (str ''Failed to analyze speech. Please ensure you uploaded a valid audio file and try again.''))
         (Some (str ''Failed to generate corrected audio'')))"
    using error_classification [OF t4] tts_error_not_timeout n4 m4 by auto
  show ?thesis using 1 2 3 4 by blast
qed

subsection \<open>The preview flag\<close>

text \<open>
  C9. In a response with status 200, \<open>hasCorrections\<close> is false exactly when the
  corrected text and the transcript of the record stored under the returned id are
  equal after \<open>toLowerCase\<close>.
\<close>

theorem has_corrections_iff:
  assumes "analyze_speech env req s = (Response 200 (AnalyzeBody i url pt hc), s')"
  shows "\<exists>r. analysisResults s' i = Some r
           \<and> (\<not> hc \<longleftrightarrow> toLowerCase env (correctedText r) = toLowerCase env (transcript r))"
proof -
  obtain out s1 where tr: "analyze_try env req s = (out, s1)"
    by (cases "analyze_try env req s") auto
  from analyze_try_cases [OF tr] show ?thesis
  proof (elim disjE conjE exE)
    fix t fb ct mp3 s2
    assume out: "out = Inr (success_response env t ct)"
      and s1: "s1 = store_result (analysisId env) (make_result env t fb ct mp3) s2"
    from tr out assms have "Response 200 (AnalyzeBody i url pt hc) = success_response env t ct" "s' = s1"
      by (simp_all add: analyze_speech_def)
    then have "i = analysisId env" "hc = (toLowerCase env ct \<noteq> toLowerCase env t)" "s' = s1"
      by (simp_all add: success_response_def)
    then show ?thesis
      unfolding s1 by (simp add: stored_fields make_result_def)
  next
    fix e assume "out = Inl e"
    with tr assms have "error_response env e = Response 200 (AnalyzeBody i url pt hc)"
      by (simp add: analyze_speech_def)
    with error_response_not_200 show ?thesis by blast
  next
    assume "out = Inr no_file_response"
    with tr assms show ?thesis by (simp add: analyze_speech_def no_file_response_def)
  next
    assume "out = Inr no_speech_response"
    with tr assms show ?thesis by (simp add: analyze_speech_def no_speech_response_def)
  qed
qed

theorem has_corrections_iff_witness:
  "fst (analyze_speech c9_env ex_req ex_state)
     = Response 200 (AnalyzeBody (analysisId c9_env) (str ''/results/'' @ analysisId c9_env)
         (str ''he go'') False)
   \<and> (\<exists>r. analysisResults (snd (analyze_speech c9_env ex_req ex_state)) (analysisId c9_env) = Some r
          \<and> transcript r = str ''he go'' \<and> correctedText r = str ''HE GO''
          \<and> toLowerCase c9_env (correctedText r) = toLowerCase c9_env (transcript r))"
proof -
  have c: "corrected_of (str ''he go'') (str ''Corrected: HE GO'') = str ''HE GO''"
    by (simp add: corrected_of_def corrected_capture_def string_eval)
  have lc: "toLowerCase c9_env (str ''HE GO'') = toLowerCase c9_env (str ''he go'')"
    by (simp add: c9_env_def ex_env_def ascii_lower_def str_def)
  have ne: "corrected_of (str ''he go'') (str ''Corrected: HE GO'') \<noteq> []"
    unfolding c by (simp add: str_def)
  note st = ex_stored [OF ex_plain ne, of "[7, 7]", folded c9_env_def, unfolded c]
  have run: "analyze_speech c9_env ex_req ex_state
      = (Response 200 (AnalyzeBody (analysisId c9_env) (str ''/results/'' @ analysisId c9_env)
           (str ''he go'') False), snd (analyze_speech c9_env ex_req ex_state))"
    using st lc by (simp add: success_response_def prod_eq_iff str_def)
  have 1: "fst (analyze_speech c9_env ex_req ex_state)
     = Response 200 (AnalyzeBody (analysisId c9_env) (str ''/results/'' @ analysisId c9_env)
         (str ''he go'') False)"
    using run by (metis fst_conv)
  from has_corrections_iff [OF run] obtain r where
    r: "analysisResults (snd (analyze_speech c9_env ex_req ex_state)) (analysisId c9_env) = Some r"
       "toLowerCase c9_env (correctedText r) = toLowerCase c9_env (transcript r)"
    by auto
  from r(1) st have "transcript r = str ''he go''" "correctedText r = str ''HE GO''"
    by (auto simp: make_result_def)
  with 1 r show ?thesis by blast
qed

subsection \<open>Expiry of a stored record\<close>

text \<open>
  C7. A run that answers 200 at clock value \<open>t0\<close> stores a record \<open>r\<close> under its id and
  schedules one timer due at \<open>t0 + 3600000\<close> milliseconds. Handlers of other requests
  run in between awaits, but a handler touches the map and the timers only in its last
  synchronous block, so a request is one event here. Provided that no timer for the id
  was pending and that no other request generates the same id (the specification takes
  ids to be unique per run), after any sequence of requests, passing time and timer
  callbacks: while the clock is before \<open>t0 + 3600000\<close>, \<open>GET /api/analysis/:id\<close> answers
  with \<open>r\<close> and \<open>GET /api/download/:id\<close> with its audio (when that is not empty); and
  either the one timer is still pending and the record is in the map, or the timer has
  run, the clock is at or after \<open>t0 + 3600000\<close>, and both routes answer 404. The timer
  can run as soon as it is due, and then the id is gone.
\<close>

theorem record_expiry:
  assumes ins: "analyze_speech env req s = (Response 200 b, s1)"
      and fresh: "analysisId env \<notin> snd ` set (timers s)"
      and others: "\<forall>ev\<in>set evs. event_id ev \<noteq> Some (analysisId env)"
  shows "\<exists>r. analysisResults s1 (analysisId env) = Some r
     \<and> (clock (run s1 evs) < clock s + 3600000 \<longrightarrow>
          api_analysis (run s1 evs) (analysisId env) = Response 200 (ResultBody r)
          \<and> (audio r \<noteq> [] \<longrightarrow>
                api_download (run s1 evs) (analysisId env)
                  = Response 200 (AudioBody (str ''corrected_speech_'' @ analysisId env @ str ''.mp3'')
                      (audio r))))
     \<and> (timers_of (analysisId env) (run s1 evs) = [(clock s + 3600000, analysisId env)]
          \<and> analysisResults (run s1 evs) (analysisId env) = Some r
        \<or> timers_of (analysisId env) (run s1 evs) = []
          \<and> clock s + 3600000 \<le> clock (run s1 evs)
          \<and> api_analysis (run s1 evs) (analysisId env)
              = Response 404 (ErrorBody (str ''Analysis not found'') None None)
          \<and> api_download (run s1 evs) (analysisId env)
              = Response 404 (ErrorBody (str ''Audio file not found'') None None))
     \<and> (\<forall>k. k < length (timers (run s1 evs))
            \<and> timers (run s1 evs) ! k = (clock s + 3600000, analysisId env)
            \<and> clock s + 3600000 \<le> clock (run s1 evs)
          \<longrightarrow> api_analysis (fire k (run s1 evs)) (analysisId env)
                = Response 404 (ErrorBody (str ''Analysis not found'') None None))"
proof -
  let ?i = "analysisId env" and ?due = "clock s + 3600000" and ?s = "run s1 evs"
  from analyze_speech_200_stored [OF ins] obtain r s2 where
    s1: "s1 = store_result ?i r s2" and fr: "analysisResults s2 = analysisResults s"
      "timers s2 = timers s" "clock s2 = clock s"
    by blast
  have st: "analysisResults s1 ?i = Some r"
    unfolding s1 by (rule stored_fields)
  have "filter (\<lambda>p. snd p = ?i) (timers s) = []"
    using fresh by (force simp: filter_empty_conv)
  then have "timers_of ?i s1 = [(?due, ?i)]"
    unfolding s1 timers_of_def by (simp add: store_result_simps fr)
  with st have "expiry_inv ?i r ?due s1" by (simp add: expiry_inv_def)
  from run_inv [OF this others] have inv: "expiry_inv ?i r ?due ?s" .
  have early: "api_analysis ?s ?i = Response 200 (ResultBody r)
          \<and> (audio r \<noteq> [] \<longrightarrow>
                api_download ?s ?i
                  = Response 200 (AudioBody (str ''corrected_speech_'' @ ?i @ str ''.mp3'') (audio r)))"
    if "clock ?s < ?due"
    using inv that by (auto simp: expiry_inv_def api_analysis_def api_download_def)
  have late: "timers_of ?i ?s = [(?due, ?i)] \<and> analysisResults ?s ?i = Some r
        \<or> timers_of ?i ?s = [] \<and> ?due \<le> clock ?s
          \<and> api_analysis ?s ?i = Response 404 (ErrorBody (str ''Analysis not found'') None None)
          \<and> api_download ?s ?i = Response 404 (ErrorBody (str ''Audio file not found'') None None)"
    using inv by (auto simp: expiry_inv_def api_analysis_def api_download_def)
  have fired: "api_analysis (fire k ?s) ?i = Response 404 (ErrorBody (str ''Analysis not found'') None None)"
    if "k < length (timers ?s)" "timers ?s ! k = (?due, ?i)" "?due \<le> clock ?s" for k
    using fire_due_deletes [OF that] by (simp add: api_analysis_def)
  show ?thesis
    using st early late fired by blast
qed

theorem record_expiry_witness:
  "\<exists>r. analysisResults (snd (analyze_speech spec_env ex_req ex_state)) (analysisId spec_env) = Some r
     \<and> api_analysis (run (snd (analyze_speech spec_env ex_req ex_state)) [Elapse 3599999, Fire 0])
          (analysisId spec_env) = Response 200 (ResultBody r)
     \<and> api_download (run (snd (analyze_speech spec_env ex_req ex_state)) [Elapse 3599999, Fire 0])
          (analysisId spec_env)
        = Response 200 (AudioBody (str ''corrected_speech_'' @ analysisId spec_env @ str ''.mp3'') [7, 7])
     \<and> api_analysis (run (snd (analyze_speech spec_env ex_req ex_state)) [Elapse 3600000, Fire 0])
          (analysisId spec_env) = Response 404 (ErrorBody (str ''Analysis not found'') None None)
     \<and> api_download (run (snd (analyze_speech spec_env ex_req ex_state)) [Elapse 3600000, Fire 0])
          (analysisId spec_env) = Response 404 (ErrorBody (str ''Audio file not found'') None None)"
proof -
  let ?i = "analysisId spec_env"
  obtain b s1 where ins: "analyze_speech spec_env ex_req ex_state = (Response 200 b, s1)"
    unfolding spec_env_def using ex_run_200 [OF ex_long spec_ne] by blast
  from analyze_speech_200_stored [OF ins] obtain r0 s2 where
    s1: "s1 = store_result ?i r0 s2" and fr: "timers s2 = timers ex_state" "clock s2 = clock ex_state"
    by blast
  have t1: "timers s1 = [(3601000, ?i)]" and c1: "clock s1 = 1000"
    unfolding s1 by (simp_all add: store_result_simps fr ex_state_def)
  have fresh: "?i \<notin> snd ` set (timers ex_state)" by (simp add: ex_state_def)
  have cs: "clock ex_state + 3600000 = 3601000" by (simp add: ex_state_def)
  have o1: "\<forall>ev\<in>set [Elapse 3599999, Fire 0]. event_id ev \<noteq> Some ?i" by simp
  have o2: "\<forall>ev\<in>set [Elapse 3600000, Fire 0]. event_id ev \<noteq> Some ?i" by simp
  have k1: "clock (run s1 [Elapse 3599999, Fire 0]) < clock ex_state + 3600000"
    by (simp add: run_def clock_fire c1 ex_state_def)
  have k2: "timers_of ?i (run s1 [Elapse 3600000, Fire 0]) = []"
    by (simp add: run_def fire_def t1 c1 timers_of_def)
  have au: "audio r = [7, 7]" if "analysisResults s1 ?i = Some r" for r
    using that ex_stored [OF ex_long spec_ne, of "[7, 7]", folded spec_env_def] ins
    by (auto simp: make_result_def)
  from record_expiry [OF ins fresh o1] k1 obtain r where
    r: "analysisResults s1 ?i = Some r"
       "api_analysis (run s1 [Elapse 3599999, Fire 0]) ?i = Response 200 (ResultBody r)"
       "audio r \<noteq> [] \<longrightarrow> api_download (run s1 [Elapse 3599999, Fire 0]) ?i
          = Response 200 (AudioBody (str ''corrected_speech_'' @ ?i @ str ''.mp3'') (audio r))"
    by blast
  from record_expiry [OF ins fresh o2] k2 have
    l: "api_analysis (run s1 [Elapse 3600000, Fire 0]) ?i
          = Response 404 (ErrorBody (str ''Analysis not found'') None None)"
       "api_download (run s1 [Elapse 3600000, Fire 0]) ?i
          = Response 404 (ErrorBody (str ''Audio file not found'') None None)"
    by auto
  from r l au [OF r(1)] show ?thesis
    unfolding ins by auto
qed

end
